theory Spec2Isabelle
  imports Main "HOL-Library.Word"
begin

unbundle bit_operations_syntax

section \<open>The V4L2 device monitor (sys/v4l2/gstv4l2devicemonitor.c)\<close>

text \<open>
  The monitor probes video4linux2 device nodes, lists them, and follows udev hotplug
  events. Everything outside the file (the file system, the V4L2 object helpers, udev)
  is an explicit environment; every call that acquires, releases, locks or notifies is
  written to an event trace, so that the order of effects can be stated.
\<close>

subsection \<open>Data\<close>

text \<open>A \<open>GstCaps\<close> value is the list of its structures; the empty list is empty caps.\<close>

type_synonym GstCaps = "string list"

definition gst_caps_is_empty :: "GstCaps \<Rightarrow> bool" where
  "gst_caps_is_empty caps = (caps = [])"

datatype GstV4l2DeviceType =
    GST_V4L2_DEVICE_TYPE_INVALID
  | GST_V4L2_DEVICE_TYPE_SOURCE
  | GST_V4L2_DEVICE_TYPE_SINK

datatype v4l2_buf_type = V4L2_BUF_TYPE_VIDEO_CAPTURE | V4L2_BUF_TYPE_VIDEO_OUTPUT

text \<open>
  \<open>GstV4l2Device\<close>: the fields of the struct (\<open>device_path\<close>, \<open>syspath\<close>, \<open>element\<close>)
  and the properties of the parent \<open>GstDevice\<close> that \<open>gst_v4l2_device_new\<close> sets
  (\<open>display-name\<close>, \<open>caps\<close>, \<open>klass\<close>). \<open>syspath\<close> is a nullable C string.
\<close>

record GstV4l2Device =
  device_path :: string
  display_name :: string
  caps :: GstCaps
  klass :: string
  element :: string
  syspath :: "string option"

text \<open>\<open>struct v4l2_capability\<close>, the two fields the monitor reads.\<close>

record v4l2_capability =
  card :: string
  capabilities :: "32 word"

record GstV4l2Object =
  videodev :: "string option"
  obj_type :: v4l2_buf_type
  vcap :: v4l2_capability

text \<open>
  Modelled from the spec: the capture and output capability flags
  (\<open>V4L2_CAP_VIDEO_CAPTURE\<close>, \<open>V4L2_CAP_VIDEO_OUTPUT\<close>) and the character-special test
  \<open>S_ISCHR\<close> are macros of system headers that are not under src/; they are given
  the values of linux/videodev2.h and sys/stat.h.
\<close>

definition V4L2_CAP_VIDEO_CAPTURE :: "32 word" where
  "V4L2_CAP_VIDEO_CAPTURE = 0x00000001"

definition V4L2_CAP_VIDEO_OUTPUT :: "32 word" where
  "V4L2_CAP_VIDEO_OUTPUT = 0x00000002"

definition S_ISCHR :: "32 word \<Rightarrow> bool" where
  "S_ISCHR m = (m AND 0xF000 = 0x2000)"

text \<open>
  The environment of a probe: \<open>stat\<close> gives \<open>st_mode\<close> or fails (\<open>None\<close> is the
  return value -1); \<open>v4l2_open\<close> is what \<open>gst_v4l2_open\<close> finds (the capability struct
  of the node, or \<open>None\<close> when it returns FALSE); \<open>v4l2_get_caps\<close> is what
  \<open>gst_v4l2_object_get_caps\<close> returns for a device and a buffer type (\<open>None\<close> is NULL).
\<close>

record v4l2_env =
  stat :: "string option \<Rightarrow> 32 word option"
  v4l2_open :: "string option \<Rightarrow> v4l2_capability option"
  v4l2_get_caps :: "string option \<Rightarrow> v4l2_buf_type \<Rightarrow> GstCaps option"

datatype error = AssertNotReached | NullDereference

datatype event =
    EvStat "string option"
  | EvObjectNew "string option"
  | EvOpen bool
  | EvGetCaps bool
  | EvCapsUnref
  | EvDeviceNew
  | EvClose
  | EvObjectDestroy
  | EvRefSink GstV4l2Device
  | EvLock
  | EvUnlock
  | EvRef GstV4l2Device
  | EvUnref GstV4l2Device
  | EvDeviceAdd GstV4l2Device
  | EvDeviceRemove GstV4l2Device
  | EvWarning string
  | EvBroadcast
  | EvLoopRun
  | EvIdleQuit
  | EvContextUnref
  | EvThreadJoin
  | EvThreadUnref

subsection \<open>Probing one device node\<close>

definition gst_v4l2_object_new :: "v4l2_buf_type \<Rightarrow> string option \<Rightarrow> GstV4l2Object" where
  "gst_v4l2_object_new type default_device =
     \<lparr>videodev = default_device, obj_type = type,
      vcap = \<lparr>card = [], capabilities = 0\<rparr>\<rparr>"

definition gst_v4l2_open :: "v4l2_env \<Rightarrow> GstV4l2Object \<Rightarrow> GstV4l2Object option" where
  "gst_v4l2_open env v4l2obj =
     (case v4l2_open env (videodev v4l2obj) of
        None \<Rightarrow> None
      | Some vc \<Rightarrow> Some (v4l2obj\<lparr>vcap := vc\<rparr>))"

definition gst_v4l2_object_get_caps :: "v4l2_env \<Rightarrow> GstV4l2Object \<Rightarrow> GstCaps option" where
  "gst_v4l2_object_get_caps env v4l2obj =
     v4l2_get_caps env (videodev v4l2obj) (obj_type v4l2obj)"

text \<open>
  \<open>gst_v4l2_device_new\<close>: the three \<open>g_return_val_if_fail\<close> guards return NULL; a type
  that is neither source nor sink reaches \<open>g_assert_not_reached\<close>.
\<close>

definition gst_v4l2_device_new ::
  "string option \<Rightarrow> string option \<Rightarrow> GstCaps option \<Rightarrow> GstV4l2DeviceType
     \<Rightarrow> error + GstV4l2Device option" where
  "gst_v4l2_device_new device_path' device_name caps' type =
     (case device_path' of None \<Rightarrow> Inr None | Some p \<Rightarrow>
      (case device_name of None \<Rightarrow> Inr None | Some n \<Rightarrow>
       (case caps' of None \<Rightarrow> Inr None | Some c \<Rightarrow>
        (case type of
           GST_V4L2_DEVICE_TYPE_SOURCE \<Rightarrow>
             Inr (Some \<lparr>device_path = p, display_name = n, caps = c,
                        klass = ''Video/Source'', element = ''v4l2src'', syspath = None\<rparr>)
         | GST_V4L2_DEVICE_TYPE_SINK \<Rightarrow>
             Inr (Some \<lparr>device_path = p, display_name = n, caps = c,
                        klass = ''Video/Sink'', element = ''v4l2sink'', syspath = None\<rparr>)
         | GST_V4L2_DEVICE_TYPE_INVALID \<Rightarrow> Inl AssertNotReached))))"

text \<open>
  Lines 136 to 147 of \<open>gst_v4l2_device_monitor_probe_device\<close>: the caps query and the
  construction of the record, up to the label \<open>close\<close>.
\<close>

definition probe_device_caps ::
  "v4l2_env \<Rightarrow> GstV4l2Object \<Rightarrow> string option \<Rightarrow> string option \<Rightarrow> GstV4l2DeviceType
     \<Rightarrow> event list \<times> (error + GstV4l2Device option)" where
  "probe_device_caps env v4l2obj device_path' device_name type =
     (case gst_v4l2_object_get_caps env v4l2obj of
        None \<Rightarrow> ([EvGetCaps False], Inr None)
      | Some caps' \<Rightarrow>
          if gst_caps_is_empty caps' then ([EvGetCaps True, EvCapsUnref], Inr None)
          else
            (case gst_v4l2_device_new device_path'
                    (Some (case device_name of Some n \<Rightarrow> n | None \<Rightarrow> card (vcap v4l2obj)))
                    (Some caps') type of
               Inl e \<Rightarrow> ([EvGetCaps True, EvDeviceNew], Inl e)
             | Inr device \<Rightarrow> ([EvGetCaps True, EvDeviceNew, EvCapsUnref], Inr device)))"

text \<open>
  Lines 120 to 147: the classification, with the jump to \<open>close\<close> for a node that is
  both capture and output.
\<close>

definition probe_device_opened ::
  "v4l2_env \<Rightarrow> GstV4l2Object \<Rightarrow> string option \<Rightarrow> string option
     \<Rightarrow> event list \<times> (error + GstV4l2Device option)" where
  "probe_device_opened env v4l2obj device_path' device_name =
     (let type = (if capabilities (vcap v4l2obj) AND V4L2_CAP_VIDEO_CAPTURE \<noteq> 0
                  then GST_V4L2_DEVICE_TYPE_SOURCE else GST_V4L2_DEVICE_TYPE_INVALID)
      in
        if capabilities (vcap v4l2obj) AND V4L2_CAP_VIDEO_OUTPUT \<noteq> 0 then
          (let v4l2obj = v4l2obj\<lparr>obj_type := V4L2_BUF_TYPE_VIDEO_OUTPUT\<rparr> in
             if type = GST_V4L2_DEVICE_TYPE_INVALID
             then probe_device_caps env v4l2obj device_path' device_name
                    GST_V4L2_DEVICE_TYPE_SINK
             else ([], Inr None))
        else probe_device_caps env v4l2obj device_path' device_name type)"

definition gst_v4l2_device_monitor_probe_device ::
  "v4l2_env \<Rightarrow> string option \<Rightarrow> string option
     \<Rightarrow> event list \<times> (error + GstV4l2Device option)" where
  "gst_v4l2_device_monitor_probe_device env device_path' device_name =
     (case stat env device_path' of
        None \<Rightarrow> ([EvStat device_path'], Inr None)
      | Some st_mode \<Rightarrow>
          if \<not> S_ISCHR st_mode then ([EvStat device_path'], Inr None)
          else
            (let v4l2obj = gst_v4l2_object_new V4L2_BUF_TYPE_VIDEO_CAPTURE device_path' in
               case gst_v4l2_open env v4l2obj of
                 None \<Rightarrow>
                   ([EvStat device_path', EvObjectNew device_path', EvOpen False,
                     EvObjectDestroy], Inr None)
               | Some v4l2obj \<Rightarrow>
                   (case probe_device_opened env v4l2obj device_path' device_name of
                      (tr, Inl e) \<Rightarrow>
                        ([EvStat device_path', EvObjectNew device_path', EvOpen True] @ tr,
                         Inl e)
                    | (tr, Inr device) \<Rightarrow>
                        ([EvStat device_path', EvObjectNew device_path', EvOpen True] @ tr
                           @ [EvClose, EvObjectDestroy], Inr device))))"

subsection \<open>Static enumeration\<close>

definition dev_base :: "string list" where
  "dev_base = [''/dev/video'', ''/dev/v4l2/video'']"

text \<open>The \<open>%d\<close> of \<open>g_strdup_printf\<close> for the indices of the scan, which are not negative.\<close>

fun printf_d :: "nat \<Rightarrow> string" where
  "printf_d n =
     (if n < 10 then [char_of (48 + n)]
      else printf_d (n div 10) @ [char_of (48 + n mod 10)])"

declare printf_d.simps [simp del]

text \<open>
  The inner loop of \<open>gst_v4l2_device_monitor_probe\<close> over the base names, for one index
  \<open>n\<close>; the accumulator is the trace so far and the list \<open>devices\<close>.
\<close>

fun probe_bases ::
  "v4l2_env \<Rightarrow> nat \<Rightarrow> string list \<Rightarrow> event list \<times> GstV4l2Device list
     \<Rightarrow> event list \<times> (error + GstV4l2Device list)" where
  "probe_bases env n [] (tr, devs) = (tr, Inr devs)"
| "probe_bases env n (b # bases) (tr, devs) =
     (let dev = b @ printf_d n in
        case gst_v4l2_device_monitor_probe_device env (Some dev) None of
          (t, Inl e) \<Rightarrow> (tr @ t, Inl e)
        | (t, Inr None) \<Rightarrow> probe_bases env n bases (tr @ t, devs)
        | (t, Inr (Some device)) \<Rightarrow>
            probe_bases env n bases (tr @ t @ [EvRefSink device], device # devs))"

text \<open>The outer loop, \<open>for (n = 0; n < 64; n++)\<close>.\<close>

function probe_indices ::
  "v4l2_env \<Rightarrow> nat \<Rightarrow> event list \<times> GstV4l2Device list
     \<Rightarrow> event list \<times> (error + GstV4l2Device list)" where
  "probe_indices env n acc =
     (if n < 64 then
        (case probe_bases env n dev_base acc of
           (tr, Inl e) \<Rightarrow> (tr, Inl e)
         | (tr, Inr devs) \<Rightarrow> probe_indices env (Suc n) (tr, devs))
      else (fst acc, Inr (snd acc)))"
  by pat_completeness auto
termination
  by (relation "measure (\<lambda>(env, n, acc). 64 - n)") auto

declare probe_indices.simps [simp del]

definition gst_v4l2_device_monitor_probe ::
  "v4l2_env \<Rightarrow> event list \<times> (error + GstV4l2Device list)" where
  "gst_v4l2_device_monitor_probe env = probe_indices env 0 ([], [])"

subsection \<open>Hotplug events\<close>

text \<open>
  A \<open>GUdevDevice\<close> as the monitor reads it: the device file (nullable), the sysfs path
  (udev gives one for every device), string properties and integer properties
  (\<open>g_udev_device_get_property_as_int\<close>).
\<close>

record GUdevDevice =
  device_file :: "string option"
  sysfs_path :: string
  property :: "string \<Rightarrow> string option"
  property_as_int :: "string \<Rightarrow> int"

text \<open>
  The monitor object: \<open>devices\<close> is the list of the parent \<open>GstDeviceMonitor\<close>, the
  other fields are those of \<open>GstV4l2DeviceMonitor\<close> (handles are names of objects).
\<close>

record GstV4l2DeviceMonitor =
  devices :: "GstV4l2Device list"
  context' :: "nat option"
  loop :: "nat option"
  thread :: "nat option"
  started :: bool

text \<open>
  \<open>gst_v4l2_device_monitor_init\<close> only initialises the condition variable; the fields
  of a new object are zero.
\<close>

definition gst_v4l2_device_monitor_init :: GstV4l2DeviceMonitor where
  "gst_v4l2_device_monitor_init =
     \<lparr>devices = [], context' = None, loop = None, thread = None, started = False\<rparr>"

text \<open>
  Modelled from the spec: \<open>gst_device_monitor_device_add\<close> and
  \<open>gst_device_monitor_device_remove\<close> belong to the parent class \<open>GstDeviceMonitor\<close>,
  whose source is not under src/. The add notification publishes the record into the
  live registry, the remove notification retracts that record from it.
\<close>

definition gst_device_monitor_device_add ::
  "GstV4l2DeviceMonitor \<Rightarrow> GstV4l2Device \<Rightarrow> GstV4l2DeviceMonitor" where
  "gst_device_monitor_device_add monitor device =
     monitor\<lparr>devices := device # devices monitor\<rparr>"

definition gst_device_monitor_device_remove ::
  "GstV4l2DeviceMonitor \<Rightarrow> GstV4l2Device \<Rightarrow> GstV4l2DeviceMonitor" where
  "gst_device_monitor_device_remove monitor device =
     monitor\<lparr>devices := remove1 device (devices monitor)\<rparr>"

definition gst_v4l2_device_monitor_device_from_udev ::
  "v4l2_env \<Rightarrow> GUdevDevice \<Rightarrow> event list \<times> (error + GstV4l2Device option)" where
  "gst_v4l2_device_monitor_device_from_udev env udev_device =
     (let device_path' = device_file udev_device;
          device_name = property udev_device ''ID_V4L_PRODUCT'';
          device_name = (if device_name = None
                         then property udev_device ''ID_MODEL_ENC'' else device_name);
          device_name = (if device_name = None
                         then property udev_device ''ID_MODEL'' else device_name)
      in
        case gst_v4l2_device_monitor_probe_device env device_path' device_name of
          (tr, Inl e) \<Rightarrow> (tr, Inl e)
        | (tr, Inr None) \<Rightarrow> (tr, Inr None)
        | (tr, Inr (Some gstdev)) \<Rightarrow>
            (tr, Inr (Some (gstdev\<lparr>syspath := Some (sysfs_path udev_device)\<rparr>))))"

text \<open>
  The scan of \<open>uevent_cb\<close> for a "remove": \<open>strcmp\<close> on the \<open>syspath\<close> of each record
  in turn, stopping at the first equal one. \<open>strcmp\<close> reads through its arguments, so a
  record whose \<open>syspath\<close> is NULL is a null dereference.
\<close>

fun find_syspath :: "GstV4l2Device list \<Rightarrow> string \<Rightarrow> error + GstV4l2Device option" where
  "find_syspath [] sp = Inr None"
| "find_syspath (gstdev # item) sp =
     (case syspath gstdev of
        None \<Rightarrow> Inl NullDereference
      | Some s \<Rightarrow> if s = sp then Inr (Some gstdev) else find_syspath item sp)"

definition uevent_cb ::
  "v4l2_env \<Rightarrow> string \<Rightarrow> GUdevDevice \<Rightarrow> GstV4l2DeviceMonitor
     \<Rightarrow> event list \<times> (error + GstV4l2DeviceMonitor)" where
  "uevent_cb env action device self =
     (if property_as_int device ''ID_V4L_VERSION'' \<noteq> 2 then ([], Inr self)
      else if action = ''add'' then
        (case gst_v4l2_device_monitor_device_from_udev env device of
           (tr, Inl e) \<Rightarrow> (tr, Inl e)
         | (tr, Inr None) \<Rightarrow> (tr, Inr self)
         | (tr, Inr (Some gstdev)) \<Rightarrow>
             (tr @ [EvDeviceAdd gstdev], Inr (gst_device_monitor_device_add self gstdev)))
      else if action = ''remove'' then
        (case find_syspath (devices self) (sysfs_path device) of
           Inl e \<Rightarrow> ([EvLock], Inl e)
         | Inr None \<Rightarrow> ([EvLock, EvUnlock], Inr self)
         | Inr (Some gstdev) \<Rightarrow>
             ([EvLock, EvRef gstdev, EvUnlock, EvDeviceRemove gstdev, EvUnref gstdev],
              Inr (gst_device_monitor_device_remove self gstdev)))
      else ([EvWarning action], Inr self))"

subsection \<open>The monitor thread and stop\<close>

text \<open>
  The \<open>while (devices)\<close> loop of \<open>monitor_thread\<close> over the devices that
  \<open>g_udev_client_query_by_subsystem\<close> returned: it takes the head, drops it from the
  list, and publishes it when its version is 2 and the probe gives a record.
\<close>

fun monitor_thread_devices ::
  "v4l2_env \<Rightarrow> GUdevDevice list \<Rightarrow> GstV4l2DeviceMonitor
     \<Rightarrow> event list \<times> (error + GstV4l2DeviceMonitor)" where
  "monitor_thread_devices env [] monitor = ([], Inr monitor)"
| "monitor_thread_devices env (udev_device # devs) monitor =
     (if property_as_int udev_device ''ID_V4L_VERSION'' = 2 then
        (case gst_v4l2_device_monitor_device_from_udev env udev_device of
           (tr, Inl e) \<Rightarrow> (tr, Inl e)
         | (tr, Inr None) \<Rightarrow>
             (case monitor_thread_devices env devs monitor of
                (tr', r) \<Rightarrow> (tr @ tr', r))
         | (tr, Inr (Some gstdev)) \<Rightarrow>
             (case monitor_thread_devices env devs
                     (gst_device_monitor_device_add monitor gstdev) of
                (tr', r) \<Rightarrow> (tr @ EvDeviceAdd gstdev # tr', r)))
      else monitor_thread_devices env devs monitor)"

text \<open>
  \<open>monitor_thread\<close> up to the call of \<open>g_main_loop_run\<close>; \<open>udev_devices\<close> is the answer
  of the udev client to the query for "video4linux".
\<close>

definition monitor_thread ::
  "v4l2_env \<Rightarrow> GUdevDevice list \<Rightarrow> GstV4l2DeviceMonitor
     \<Rightarrow> event list \<times> (error + GstV4l2DeviceMonitor)" where
  "monitor_thread env udev_devices monitor =
     (if context' monitor = None \<or> loop monitor = None then
        ([EvLock, EvBroadcast, EvUnlock], Inr (monitor\<lparr>started := True\<rparr>))
      else
        (case monitor_thread_devices env udev_devices monitor of
           (tr, Inl e) \<Rightarrow> ([EvLock, EvUnlock] @ tr, Inl e)
         | (tr, Inr monitor) \<Rightarrow>
             ([EvLock, EvUnlock] @ tr @ [EvLock, EvBroadcast, EvUnlock, EvLoopRun],
              Inr (monitor\<lparr>started := True\<rparr>))))"

definition gst_v4l2_device_monitor_stop ::
  "GstV4l2DeviceMonitor \<Rightarrow> event list \<times> GstV4l2DeviceMonitor" where
  "gst_v4l2_device_monitor_stop self =
     (let context = context' self;
          loop' = loop self;
          self = self\<lparr>context' := None, loop := None\<rparr>
      in
        if context = None \<or> loop' = None then ([EvLock, EvUnlock], self)
        else
          ([EvLock, EvUnlock, EvIdleQuit, EvContextUnref, EvThreadJoin, EvThreadUnref],
           self\<lparr>thread := None, started := False\<rparr>))"

text \<open>
  Modelled from the spec: \<open>gst_device_monitor_stop\<close> of the parent class
  \<open>GstDeviceMonitor\<close>, whose source is not under src/, is the stop that callers invoke.
  It calls the stop of the class, here \<open>gst_v4l2_device_monitor_stop\<close>, and the registry
  is drained and released on stop.
\<close>

definition gst_device_monitor_stop ::
  "GstV4l2DeviceMonitor \<Rightarrow> event list \<times> GstV4l2DeviceMonitor" where
  "gst_device_monitor_stop monitor =
     (case gst_v4l2_device_monitor_stop monitor of
        (tr, monitor) \<Rightarrow> (tr, monitor\<lparr>devices := []\<rparr>))"

subsection \<open>Notions used to state the properties\<close>

text \<open>
  The classification of a record is carried by its element factory and its class string,
  as \<open>gst_v4l2_device_new\<close> sets them.
\<close>

definition classification :: "GstV4l2Device \<Rightarrow> GstV4l2DeviceType" where
  "classification d =
     (if element d = ''v4l2src'' \<and> klass d = ''Video/Source'' then GST_V4L2_DEVICE_TYPE_SOURCE
      else if element d = ''v4l2sink'' \<and> klass d = ''Video/Sink'' then GST_V4L2_DEVICE_TYPE_SINK
      else GST_V4L2_DEVICE_TYPE_INVALID)"

definition has_capture :: "v4l2_capability \<Rightarrow> bool" where
  "has_capture vc = (capabilities vc AND V4L2_CAP_VIDEO_CAPTURE \<noteq> 0)"

definition has_output :: "v4l2_capability \<Rightarrow> bool" where
  "has_output vc = (capabilities vc AND V4L2_CAP_VIDEO_OUTPUT \<noteq> 0)"

text \<open>The record that a successful probe builds.\<close>

definition probed_record ::
  "string \<Rightarrow> string option \<Rightarrow> v4l2_capability \<Rightarrow> GstCaps \<Rightarrow> GstV4l2Device" where
  "probed_record path n vc cs =
     \<lparr>device_path = path,
      display_name = (case n of Some x \<Rightarrow> x | None \<Rightarrow> card vc),
      caps = cs,
      klass = (if has_output vc then ''Video/Sink'' else ''Video/Source''),
      element = (if has_output vc then ''v4l2sink'' else ''v4l2src''),
      syspath = None\<rparr>"

text \<open>
  What a probe holds after a trace: live V4L2 objects, open device handles and caps
  references of its own. A release of something that is not held has no result.
\<close>

fun resource_step :: "event \<Rightarrow> nat \<times> nat \<times> nat \<Rightarrow> (nat \<times> nat \<times> nat) option" where
  "resource_step (EvObjectNew p) (objs, fds, refs) = Some (Suc objs, fds, refs)"
| "resource_step EvObjectDestroy (objs, fds, refs) =
     (if objs = 0 then None else Some (objs - 1, fds, refs))"
| "resource_step (EvOpen ok) (objs, fds, refs) =
     Some (objs, if ok then Suc fds else fds, refs)"
| "resource_step EvClose (objs, fds, refs) =
     (if fds = 0 then None else Some (objs, fds - 1, refs))"
| "resource_step (EvGetCaps ok) (objs, fds, refs) =
     Some (objs, fds, if ok then Suc refs else refs)"
| "resource_step EvCapsUnref (objs, fds, refs) =
     (if refs = 0 then None else Some (objs, fds, refs - 1))"
| "resource_step ev r = Some r"

fun held_after :: "event list \<Rightarrow> nat \<times> nat \<times> nat \<Rightarrow> (nat \<times> nat \<times> nat) option" where
  "held_after [] r = Some r"
| "held_after (ev # tr) r =
     (case resource_step ev r of None \<Rightarrow> None | Some r' \<Rightarrow> held_after tr r')"

text \<open>
  The lock discipline of a trace: the object lock is taken only when free, released only
  when held, and the add and remove notifications (which take the lock themselves) are
  issued only while it is free.
\<close>

fun notifies_unlocked :: "bool \<Rightarrow> event list \<Rightarrow> bool" where
  "notifies_unlocked locked [] = True"
| "notifies_unlocked locked (EvLock # tr) = (\<not> locked \<and> notifies_unlocked True tr)"
| "notifies_unlocked locked (EvUnlock # tr) = (locked \<and> notifies_unlocked False tr)"
| "notifies_unlocked locked (EvDeviceAdd d # tr) = (\<not> locked \<and> notifies_unlocked locked tr)"
| "notifies_unlocked locked (EvDeviceRemove d # tr) =
     (\<not> locked \<and> notifies_unlocked locked tr)"
| "notifies_unlocked locked (ev # tr) = notifies_unlocked locked tr"

text \<open>The candidates of the static scan, in scan order: for each index both base names.\<close>

definition probe_candidates :: "nat \<Rightarrow> string list" where
  "probe_candidates n = concat (map (\<lambda>i. map (\<lambda>b. b @ printf_d i) dev_base) [n..<64])"

definition probe_record :: "v4l2_env \<Rightarrow> string \<Rightarrow> GstV4l2Device option" where
  "probe_record env dev =
     (case snd (gst_v4l2_device_monitor_probe_device env (Some dev) None) of
        Inl e \<Rightarrow> None
      | Inr r \<Rightarrow> r)"

definition probe_trace :: "v4l2_env \<Rightarrow> string \<Rightarrow> event list" where
  "probe_trace env dev =
     (case gst_v4l2_device_monitor_probe_device env (Some dev) None of
        (t, Inr (Some device)) \<Rightarrow> t @ [EvRefSink device]
      | (t, r) \<Rightarrow> t)"

definition probe_aborts :: "v4l2_env \<Rightarrow> string \<Rightarrow> bool" where
  "probe_aborts env dev =
     (case snd (gst_v4l2_device_monitor_probe_device env (Some dev) None) of
        Inl e \<Rightarrow> True
      | Inr r \<Rightarrow> False)"

text \<open>The paths that a trace calls \<open>stat\<close> on, in order.\<close>

fun stat_calls :: "event list \<Rightarrow> string option list" where
  "stat_calls [] = []"
| "stat_calls (EvStat p # tr) = p # stat_calls tr"
| "stat_calls (ev # tr) = stat_calls tr"

text \<open>The assertion at the entry of \<open>gst_v4l2_device_monitor_start\<close>.\<close>

definition start_assertion :: "GstV4l2DeviceMonitor \<Rightarrow> bool" where
  "start_assertion self = (context' self = None)"

subsection \<open>Sample environments\<close>

text \<open>
  One capture-only node \<open>/dev/video3\<close> with the card name "WebCam X" and one format;
  no other path exists.
\<close>

definition webcam_env :: v4l2_env where
  "webcam_env =
     \<lparr>stat = (\<lambda>p. if p = Some ''/dev/video3'' then Some 0x21B0 else None),
      v4l2_open = (\<lambda>p. if p = Some ''/dev/video3''
                        then Some \<lparr>card = ''WebCam X'', capabilities = 0x04200001\<rparr>
                        else None),
      v4l2_get_caps = (\<lambda>p t. if p = Some ''/dev/video3'' \<and> t = V4L2_BUF_TYPE_VIDEO_CAPTURE
                              then Some [''video/x-raw''] else None)\<rparr>"

definition webcam_record :: GstV4l2Device where
  "webcam_record =
     \<lparr>device_path = ''/dev/video3'', display_name = ''WebCam X'', caps = [''video/x-raw''],
      klass = ''Video/Source'', element = ''v4l2src'', syspath = None\<rparr>"

text \<open>A memory-to-memory node: both capture and output.\<close>

definition m2m_env :: v4l2_env where
  "m2m_env =
     \<lparr>stat = (\<lambda>p. if p = Some ''/dev/video0'' then Some 0x21B0 else None),
      v4l2_open = (\<lambda>p. if p = Some ''/dev/video0''
                        then Some \<lparr>card = ''codec'', capabilities = 0x04000003\<rparr>
                        else None),
      v4l2_get_caps = (\<lambda>p t. if p = Some ''/dev/video0'' then Some [''video/x-raw''] else None)\<rparr>"

text \<open>An empty device namespace.\<close>

definition empty_env :: v4l2_env where
  "empty_env =
     \<lparr>stat = (\<lambda>p. None), v4l2_open = (\<lambda>p. None), v4l2_get_caps = (\<lambda>p t. None)\<rparr>"

text \<open>The udev view of the webcam, and the same device reported with version 1.\<close>

definition webcam_udev :: GUdevDevice where
  "webcam_udev =
     \<lparr>device_file = Some ''/dev/video3'',
      sysfs_path = ''/sys/devices/usb1/1-1/video4linux/video3'',
      property = (\<lambda>k. if k = ''ID_V4L_PRODUCT'' then Some ''USB Camera'' else None),
      property_as_int = (\<lambda>k. if k = ''ID_V4L_VERSION'' then 2 else 0)\<rparr>"

definition webcam_udev_v1 :: GUdevDevice where
  "webcam_udev_v1 = webcam_udev\<lparr>property_as_int := (\<lambda>k. if k = ''ID_V4L_VERSION'' then 1 else 0)\<rparr>"

definition usb_record :: GstV4l2Device where
  "usb_record =
     \<lparr>device_path = ''/dev/video3'', display_name = ''USB Camera'', caps = [''video/x-raw''],
      klass = ''Video/Source'', element = ''v4l2src'',
      syspath = Some ''/sys/devices/usb1/1-1/video4linux/video3''\<rparr>"

definition running_monitor :: GstV4l2DeviceMonitor where
  "running_monitor =
     \<lparr>devices = [usb_record], context' = Some 1, loop = Some 2, thread = Some 3,
      started = True\<rparr>"

text \<open>
  A node \<open>/dev/video1\<close> that reports neither the capture nor the output flag (its
  capability word has the memory-to-memory and streaming bits only) and has a format.
\<close>

definition neither_env :: v4l2_env where
  "neither_env =
     \<lparr>stat = (\<lambda>p. if p = Some ''/dev/video1'' then Some 0x21B0 else None),
      v4l2_open = (\<lambda>p. if p = Some ''/dev/video1''
                        then Some \<lparr>card = ''vim2m'', capabilities = 0x04008000\<rparr>
                        else None),
      v4l2_get_caps = (\<lambda>p t. if p = Some ''/dev/video1'' then Some [''video/x-raw''] else None)\<rparr>"

section \<open>Properties\<close>

subsection \<open>The result of a probe\<close>

text \<open>The result of \<open>gst_v4l2_device_monitor_probe_device\<close>, one stage at a time.\<close>

lemma probe_device_caps_snd:
  "snd (probe_device_caps env v4l2obj p n ty) =
     (case v4l2_get_caps env (videodev v4l2obj) (obj_type v4l2obj) of
        None \<Rightarrow> Inr None
      | Some cs \<Rightarrow>
          if cs = [] then Inr None
          else gst_v4l2_device_new p
                 (Some (case n of Some x \<Rightarrow> x | None \<Rightarrow> card (vcap v4l2obj))) (Some cs) ty)"
  by (simp add: probe_device_caps_def gst_v4l2_object_get_caps_def gst_caps_is_empty_def
      split: option.splits sum.splits)

lemma probe_device_opened_snd:
  "snd (probe_device_opened env v4l2obj p n) =
     (if has_output (vcap v4l2obj) then
        (if has_capture (vcap v4l2obj) then Inr None
         else snd (probe_device_caps env (v4l2obj\<lparr>obj_type := V4L2_BUF_TYPE_VIDEO_OUTPUT\<rparr>) p n
                     GST_V4L2_DEVICE_TYPE_SINK))
      else snd (probe_device_caps env v4l2obj p n
                  (if has_capture (vcap v4l2obj) then GST_V4L2_DEVICE_TYPE_SOURCE
                   else GST_V4L2_DEVICE_TYPE_INVALID)))"
  by (simp add: probe_device_opened_def has_capture_def has_output_def Let_def)

lemma probe_device_snd:
  "snd (gst_v4l2_device_monitor_probe_device env p n) =
     (case stat env p of
        None \<Rightarrow> Inr None
      | Some m \<Rightarrow>
          if \<not> S_ISCHR m then Inr None
          else (case v4l2_open env p of
                  None \<Rightarrow> Inr None
                | Some vc \<Rightarrow>
                    snd (probe_device_opened env
                           \<lparr>videodev = p, obj_type = V4L2_BUF_TYPE_VIDEO_CAPTURE, vcap = vc\<rparr>
                           p n)))"
  by (simp add: gst_v4l2_device_monitor_probe_device_def gst_v4l2_open_def
      gst_v4l2_object_new_def Let_def split: option.splits prod.splits sum.splits)

lemma probe_device_success:
  assumes "stat env (Some path) = Some m" and "S_ISCHR m"
    and "v4l2_open env (Some path) = Some vc"
    and "has_capture vc \<noteq> has_output vc"
    and "v4l2_get_caps env (Some path)
           (if has_output vc then V4L2_BUF_TYPE_VIDEO_OUTPUT else V4L2_BUF_TYPE_VIDEO_CAPTURE)
         = Some cs"
    and "cs \<noteq> []"
  shows "snd (gst_v4l2_device_monitor_probe_device env (Some path) n) =
           Inr (Some (probed_record path n vc cs))"
  using assms
  by (cases "has_output vc")
     (simp_all add: probe_device_snd probe_device_opened_snd probe_device_caps_snd
        gst_v4l2_device_new_def probed_record_def cong: option.case_cong)

lemma probe_device_SomeD:
  assumes r: "snd (gst_v4l2_device_monitor_probe_device env p n) = Inr (Some d)"
  shows "\<exists>path m vc cs. p = Some path \<and> stat env p = Some m \<and> S_ISCHR m
           \<and> v4l2_open env p = Some vc
           \<and> has_capture vc \<noteq> has_output vc
           \<and> v4l2_get_caps env p
                (if has_output vc then V4L2_BUF_TYPE_VIDEO_OUTPUT
                 else V4L2_BUF_TYPE_VIDEO_CAPTURE) = Some cs
           \<and> cs \<noteq> []
           \<and> d = probed_record path n vc cs"
proof -
  from r obtain m where m: "stat env p = Some m"
    by (cases "stat env p") (simp_all add: probe_device_snd)
  from r m have chr: "S_ISCHR m"
    by (cases "S_ISCHR m") (simp_all add: probe_device_snd)
  from r m chr obtain vc where vc: "v4l2_open env p = Some vc"
    by (cases "v4l2_open env p") (simp_all add: probe_device_snd)
  let ?obj = "\<lparr>videodev = p, obj_type = V4L2_BUF_TYPE_VIDEO_CAPTURE, vcap = vc\<rparr>"
  from r m chr vc have o: "snd (probe_device_opened env ?obj p n) = Inr (Some d)"
    by (simp add: probe_device_snd)
  let ?ty = "if has_output vc then GST_V4L2_DEVICE_TYPE_SINK
             else if has_capture vc then GST_V4L2_DEVICE_TYPE_SOURCE
             else GST_V4L2_DEVICE_TYPE_INVALID"
  let ?bt = "if has_output vc then V4L2_BUF_TYPE_VIDEO_OUTPUT else V4L2_BUF_TYPE_VIDEO_CAPTURE"
  from o have both: "\<not> (has_capture vc \<and> has_output vc)"
    by (auto simp add: probe_device_opened_snd)
  with o have c: "snd (probe_device_caps env (?obj\<lparr>obj_type := ?bt\<rparr>) p n ?ty) = Inr (Some d)"
    by (cases "has_output vc") (simp_all add: probe_device_opened_snd)
  from c obtain cs where cs: "v4l2_get_caps env p ?bt = Some cs"
    by (cases "v4l2_get_caps env p ?bt") (simp_all add: probe_device_caps_snd)
  from c cs have ne: "cs \<noteq> []"
    by (cases "cs = []") (simp_all add: probe_device_caps_snd)
  from c cs ne have n: "gst_v4l2_device_new p
       (Some (case n of Some x \<Rightarrow> x | None \<Rightarrow> card vc)) (Some cs) ?ty = Inr (Some d)"
    by (simp add: probe_device_caps_snd cong: option.case_cong)
  from n obtain path where path: "p = Some path"
    by (cases p) (simp_all add: gst_v4l2_device_new_def)
  from n path have ty: "?ty \<noteq> GST_V4L2_DEVICE_TYPE_INVALID"
    by (cases "?ty") (simp_all add: gst_v4l2_device_new_def)
  then have one: "has_capture vc \<noteq> has_output vc"
    using both by (auto split: if_splits)
  from path m chr vc one cs ne
  have "snd (gst_v4l2_device_monitor_probe_device env p n)
          = Inr (Some (probed_record path n vc cs))"
    by (simp add: probe_device_success)
  with r have "d = probed_record path n vc cs"
    by simp
  with path m chr vc one cs ne show ?thesis by blast
qed

lemma classification_probed_record:
  "classification (probed_record path n vc cs) =
     (if has_output vc then GST_V4L2_DEVICE_TYPE_SINK else GST_V4L2_DEVICE_TYPE_SOURCE)"
  by (simp add: classification_def probed_record_def)

lemma webcam_probe:
  "snd (gst_v4l2_device_monitor_probe_device webcam_env (Some ''/dev/video3'') None)
     = Inr (Some webcam_record)"
  by code_simp

text \<open>
  C2: a device node whose capability flags report both capture and output gives no
  record; the probe is abandoned before the caps query and before a record is built.
\<close>

theorem probe_device_combo_no_record:
  assumes "v4l2_open env device_path' = Some vc" and "has_capture vc" and "has_output vc"
  shows "snd (gst_v4l2_device_monitor_probe_device env device_path' device_name) = Inr None
         \<and> EvGetCaps b
             \<notin> set (fst (gst_v4l2_device_monitor_probe_device env device_path' device_name))
         \<and> EvDeviceNew
             \<notin> set (fst (gst_v4l2_device_monitor_probe_device env device_path' device_name))"
  using assms
  by (simp add: gst_v4l2_device_monitor_probe_device_def probe_device_opened_def
      gst_v4l2_open_def gst_v4l2_object_new_def has_capture_def has_output_def Let_def
      split: option.splits)

theorem probe_device_combo_no_record_witness:
  "v4l2_open m2m_env (Some ''/dev/video0'')
     = Some \<lparr>card = ''codec'', capabilities = 0x04000003\<rparr>
   \<and> has_capture \<lparr>card = ''codec'', capabilities = 0x04000003\<rparr>
   \<and> has_output \<lparr>card = ''codec'', capabilities = 0x04000003\<rparr>
   \<and> snd (gst_v4l2_device_monitor_probe_device m2m_env (Some ''/dev/video0'') None) = Inr None"
proof -
  let ?vc = "\<lparr>card = ''codec'', capabilities = 0x04000003 :: 32 word\<rparr>"
  have h1: "v4l2_open m2m_env (Some ''/dev/video0'') = Some ?vc"
    by (simp add: m2m_env_def)
  have h2: "has_capture ?vc"
    by (simp add: has_capture_def V4L2_CAP_VIDEO_CAPTURE_def)
  have h3: "has_output ?vc"
    by (simp add: has_output_def V4L2_CAP_VIDEO_OUTPUT_def)
  from probe_device_combo_no_record [OF h1 h2 h3, where b = True and device_name = None]
  have c: "snd (gst_v4l2_device_monitor_probe_device m2m_env (Some ''/dev/video0'') None)
             = Inr None"
    by (rule conjunct1)
  from h1 h2 h3 c show ?thesis by blast
qed

text \<open>
  C3: a probe of a path returns a record exactly when the path is a character-special
  node that opens, reports exactly one of the capture and output capabilities, and gives
  a non-empty caps descriptor (queried for the output buffer type when the node is an
  output). The caps of a returned record are not empty and its classification is Source
  for a capture node and Sink for an output node. A path that \<open>stat\<close> does not report as
  a character-special node is rejected after the \<open>stat\<close> call alone: no object is
  created and nothing is opened.
\<close>

theorem probe_device_record_iff:
  "((\<exists>d. snd (gst_v4l2_device_monitor_probe_device env (Some path) device_name) = Inr (Some d))
      \<longleftrightarrow>
    (\<exists>m vc cs. stat env (Some path) = Some m \<and> S_ISCHR m
       \<and> v4l2_open env (Some path) = Some vc
       \<and> has_capture vc \<noteq> has_output vc
       \<and> v4l2_get_caps env (Some path)
            (if has_output vc then V4L2_BUF_TYPE_VIDEO_OUTPUT else V4L2_BUF_TYPE_VIDEO_CAPTURE)
          = Some cs
       \<and> cs \<noteq> []))
   \<and> (\<forall>d. snd (gst_v4l2_device_monitor_probe_device env (Some path) device_name) = Inr (Some d)
         \<longrightarrow> caps d \<noteq> []
           \<and> (classification d = GST_V4L2_DEVICE_TYPE_SOURCE
                \<or> classification d = GST_V4L2_DEVICE_TYPE_SINK)
           \<and> (\<forall>vc. v4l2_open env (Some path) = Some vc
                 \<longrightarrow> classification d =
                       (if has_output vc then GST_V4L2_DEVICE_TYPE_SINK
                        else GST_V4L2_DEVICE_TYPE_SOURCE)))
   \<and> ((\<forall>m. stat env (Some path) = Some m \<longrightarrow> \<not> S_ISCHR m)
         \<longrightarrow> gst_v4l2_device_monitor_probe_device env (Some path) device_name
               = ([EvStat (Some path)], Inr None))"
proof (intro conjI allI impI)
  show "(\<exists>d. snd (gst_v4l2_device_monitor_probe_device env (Some path) device_name)
              = Inr (Some d))
      \<longleftrightarrow>
    (\<exists>m vc cs. stat env (Some path) = Some m \<and> S_ISCHR m
       \<and> v4l2_open env (Some path) = Some vc
       \<and> has_capture vc \<noteq> has_output vc
       \<and> v4l2_get_caps env (Some path)
            (if has_output vc then V4L2_BUF_TYPE_VIDEO_OUTPUT else V4L2_BUF_TYPE_VIDEO_CAPTURE)
          = Some cs
       \<and> cs \<noteq> [])"
  proof
    assume "\<exists>d. snd (gst_v4l2_device_monitor_probe_device env (Some path) device_name)
                  = Inr (Some d)"
    then obtain d where
      "snd (gst_v4l2_device_monitor_probe_device env (Some path) device_name) = Inr (Some d)"
      by blast
    from probe_device_SomeD [OF this] show
      "\<exists>m vc cs. stat env (Some path) = Some m \<and> S_ISCHR m
         \<and> v4l2_open env (Some path) = Some vc
         \<and> has_capture vc \<noteq> has_output vc
         \<and> v4l2_get_caps env (Some path)
              (if has_output vc then V4L2_BUF_TYPE_VIDEO_OUTPUT
               else V4L2_BUF_TYPE_VIDEO_CAPTURE) = Some cs
         \<and> cs \<noteq> []"
      by blast
  next
    assume "\<exists>m vc cs. stat env (Some path) = Some m \<and> S_ISCHR m
         \<and> v4l2_open env (Some path) = Some vc
         \<and> has_capture vc \<noteq> has_output vc
         \<and> v4l2_get_caps env (Some path)
              (if has_output vc then V4L2_BUF_TYPE_VIDEO_OUTPUT
               else V4L2_BUF_TYPE_VIDEO_CAPTURE) = Some cs
         \<and> cs \<noteq> []"
    then show "\<exists>d. snd (gst_v4l2_device_monitor_probe_device env (Some path) device_name)
                     = Inr (Some d)"
      using probe_device_success [of env path _ _ _ device_name] by blast
  qed
next
  fix d
  assume r: "snd (gst_v4l2_device_monitor_probe_device env (Some path) device_name)
               = Inr (Some d)"
  from probe_device_SomeD [OF r] obtain p' vc cs where
    vc: "v4l2_open env (Some path) = Some vc" and ne: "cs \<noteq> []"
    and d: "d = probed_record p' device_name vc cs"
    by blast
  from d ne show "caps d \<noteq> []"
    by (simp add: probed_record_def)
  from d show "classification d = GST_V4L2_DEVICE_TYPE_SOURCE
                 \<or> classification d = GST_V4L2_DEVICE_TYPE_SINK"
    by (simp add: classification_probed_record)
  fix vc'
  assume "v4l2_open env (Some path) = Some vc'"
  with vc d show "classification d =
      (if has_output vc' then GST_V4L2_DEVICE_TYPE_SINK else GST_V4L2_DEVICE_TYPE_SOURCE)"
    by (simp add: classification_probed_record)
next
  assume "\<forall>m. stat env (Some path) = Some m \<longrightarrow> \<not> S_ISCHR m"
  then show "gst_v4l2_device_monitor_probe_device env (Some path) device_name
               = ([EvStat (Some path)], Inr None)"
    by (cases "stat env (Some path)")
       (simp_all add: gst_v4l2_device_monitor_probe_device_def)
qed

theorem probe_device_record_iff_witness:
  "\<exists>d. snd (gst_v4l2_device_monitor_probe_device webcam_env (Some ''/dev/video3'') None)
         = Inr (Some d)"
proof -
  let ?vc = "\<lparr>card = ''WebCam X'', capabilities = 0x04200001 :: 32 word\<rparr>"
  have "stat webcam_env (Some ''/dev/video3'') = Some 0x21B0 \<and> S_ISCHR 0x21B0
       \<and> v4l2_open webcam_env (Some ''/dev/video3'') = Some ?vc
       \<and> has_capture ?vc \<noteq> has_output ?vc
       \<and> v4l2_get_caps webcam_env (Some ''/dev/video3'')
            (if has_output ?vc then V4L2_BUF_TYPE_VIDEO_OUTPUT else V4L2_BUF_TYPE_VIDEO_CAPTURE)
          = Some [''video/x-raw'']
       \<and> [''video/x-raw''] \<noteq> []"
    by (simp add: webcam_env_def S_ISCHR_def has_capture_def has_output_def
        V4L2_CAP_VIDEO_CAPTURE_def V4L2_CAP_VIDEO_OUTPUT_def)
  then have "\<exists>m vc cs. stat webcam_env (Some ''/dev/video3'') = Some m \<and> S_ISCHR m
       \<and> v4l2_open webcam_env (Some ''/dev/video3'') = Some vc
       \<and> has_capture vc \<noteq> has_output vc
       \<and> v4l2_get_caps webcam_env (Some ''/dev/video3'')
            (if has_output vc then V4L2_BUF_TYPE_VIDEO_OUTPUT else V4L2_BUF_TYPE_VIDEO_CAPTURE)
          = Some cs
       \<and> cs \<noteq> []"
    by blast
  then show ?thesis
    by (rule probe_device_record_iff [THEN conjunct1, THEN iffD2])
qed

text \<open>
  C9: when \<open>gst_v4l2_device_monitor_probe_device\<close> returns, on any of its paths, it
  holds nothing of what it acquired: the V4L2 object is destroyed, an opened handle is
  closed, and an obtained caps reference is dropped; nothing is released that was not
  acquired before.
\<close>

theorem probe_device_releases:
  assumes "snd (gst_v4l2_device_monitor_probe_device env device_path' device_name) = Inr r"
  shows "held_after (fst (gst_v4l2_device_monitor_probe_device env device_path' device_name))
           (0, 0, 0) = Some (0, 0, 0)"
  using assms
  by (auto simp add: gst_v4l2_device_monitor_probe_device_def probe_device_opened_def
      probe_device_caps_def gst_v4l2_device_new_def gst_v4l2_open_def gst_v4l2_object_new_def
      gst_v4l2_object_get_caps_def gst_caps_is_empty_def Let_def
      split: option.splits if_splits sum.splits GstV4l2DeviceType.splits)

theorem probe_device_releases_witness:
  "snd (gst_v4l2_device_monitor_probe_device webcam_env (Some ''/dev/video3'') None)
     = Inr (Some webcam_record)
   \<and> held_after
       (fst (gst_v4l2_device_monitor_probe_device webcam_env (Some ''/dev/video3'') None))
       (0, 0, 0) = Some (0, 0, 0)"
proof -
  have h: "snd (gst_v4l2_device_monitor_probe_device webcam_env (Some ''/dev/video3'') None)
     = Inr (Some webcam_record)"
    by (rule webcam_probe)
  from h probe_device_releases [OF h] show ?thesis by (rule conjI)
qed

subsection \<open>The static enumeration\<close>

lemma stat_calls_append: "stat_calls (xs @ ys) = stat_calls xs @ stat_calls ys"
  by (induction xs rule: stat_calls.induct) simp_all

lemma stat_calls_probe_device:
  "stat_calls (fst (gst_v4l2_device_monitor_probe_device env p n)) = [p]"
  by (auto simp add: gst_v4l2_device_monitor_probe_device_def probe_device_opened_def
      probe_device_caps_def gst_caps_is_empty_def Let_def
      split: option.splits if_splits sum.splits prod.splits)

lemma stat_calls_probe_trace: "stat_calls (probe_trace env c) = [Some c]"
proof -
  obtain t r where tr: "gst_v4l2_device_monitor_probe_device env (Some c) None = (t, r)"
    by (cases "gst_v4l2_device_monitor_probe_device env (Some c) None")
  with stat_calls_probe_device [of env "Some c" None] have "stat_calls t = [Some c]"
    by simp
  with tr show ?thesis
    by (simp add: probe_trace_def stat_calls_append split: sum.splits option.splits)
qed

lemma stat_calls_probe_traces:
  "stat_calls (concat (map (probe_trace env) cs)) = map Some cs"
  by (induction cs) (simp_all add: stat_calls_append stat_calls_probe_trace)

lemma map_filter_append:
  "List.map_filter f (xs @ ys) = List.map_filter f xs @ List.map_filter f ys"
  by (simp add: List.map_filter_def)

lemma map_filter_map:
  "List.map_filter f (map g xs) = List.map_filter (\<lambda>x. f (g x)) xs"
  by (simp add: List.map_filter_def filter_map comp_def)

lemma probe_bases_char:
  assumes "\<forall>b\<in>set bases. \<not> probe_aborts env (b @ printf_d n)"
  shows "probe_bases env n bases (tr, devs) =
           (tr @ concat (map (\<lambda>b. probe_trace env (b @ printf_d n)) bases),
            Inr (rev (List.map_filter (\<lambda>b. probe_record env (b @ printf_d n)) bases) @ devs))"
  using assms
proof (induction bases arbitrary: tr devs)
  case Nil
  show ?case by (simp add: List.map_filter_simps)
next
  case (Cons b bases)
  obtain t r where tr: "gst_v4l2_device_monitor_probe_device env (Some (b @ printf_d n)) None
                          = (t, r)"
    by (cases "gst_v4l2_device_monitor_probe_device env (Some (b @ printf_d n)) None")
  from Cons.prems have rest: "\<forall>b\<in>set bases. \<not> probe_aborts env (b @ printf_d n)"
    by simp
  from Cons.prems tr obtain r' where r: "r = Inr r'"
    by (cases r) (simp_all add: probe_aborts_def)
  show ?case
  proof (cases r')
    case None
    with tr r Cons.IH [OF rest] show ?thesis
      by (simp add: probe_trace_def probe_record_def List.map_filter_simps)
  next
    case (Some device)
    with tr r Cons.IH [OF rest] show ?thesis
      by (simp add: probe_trace_def probe_record_def List.map_filter_simps)
  qed
qed

lemma probe_candidates_step:
  "n < 64 \<Longrightarrow>
     probe_candidates n = map (\<lambda>b. b @ printf_d n) dev_base @ probe_candidates (Suc n)"
  by (simp add: probe_candidates_def upt_conv_Cons)

lemma probe_candidates_done: "\<not> n < 64 \<Longrightarrow> probe_candidates n = []"
  by (simp add: probe_candidates_def)

lemma probe_indices_char:
  assumes "\<forall>c\<in>set (probe_candidates n). \<not> probe_aborts env c"
  shows "probe_indices env n (tr, devs) =
           (tr @ concat (map (probe_trace env) (probe_candidates n)),
            Inr (rev (List.map_filter (probe_record env) (probe_candidates n)) @ devs))"
  using assms
proof (induction "64 - n" arbitrary: n tr devs)
  case 0
  then have "\<not> n < 64" by simp
  then show ?case
    by (simp add: probe_indices.simps [of env n] probe_candidates_done List.map_filter_simps)
next
  case (Suc k)
  then have lt: "n < 64" by simp
  note step = probe_candidates_step [OF lt]
  from Suc.prems step
  have here: "\<forall>b\<in>set dev_base. \<not> probe_aborts env (b @ printf_d n)"
    and rest: "\<forall>c\<in>set (probe_candidates (Suc n)). \<not> probe_aborts env c"
    by simp_all
  from Suc.hyps(2) have k: "k = 64 - Suc n" by simp
  show ?case
    by (simp add: probe_indices.simps [of env n] lt probe_bases_char [OF here]
        Suc.hyps(1) [OF k rest] step map_filter_append map_filter_map map_map comp_def)
qed

lemma probe_record_Some_iff:
  "probe_record env c = Some d
     \<longleftrightarrow> snd (gst_v4l2_device_monitor_probe_device env (Some c) None) = Inr (Some d)"
  by (simp add: probe_record_def split: sum.splits)

lemma set_map_filter: "set (List.map_filter f xs) = {y. \<exists>x\<in>set xs. f x = Some y}"
  by (force simp add: List.map_filter_def image_iff)

lemma probe_unreachable:
  "stat env p = None \<or> v4l2_open env p = None
     \<Longrightarrow> snd (gst_v4l2_device_monitor_probe_device env p n) = Inr None"
  by (auto simp add: probe_device_snd split: option.splits)

lemma probe_candidates_length: "length (probe_candidates 0) = 128"
  by (simp add: probe_candidates_def dev_base_def length_concat comp_def sum_list_triv)

lemma probe_candidates_set:
  "set (probe_candidates 0) = {b @ printf_d i | b i. b \<in> set dev_base \<and> i < 64}"
  by (fastforce simp add: probe_candidates_def)

lemma probe_aborts_D:
  assumes "probe_aborts env c"
  shows "\<exists>m vc. stat env (Some c) = Some m \<and> v4l2_open env (Some c) = Some vc
           \<and> \<not> has_capture vc \<and> \<not> has_output vc"
proof -
  from assms obtain e where
    e: "snd (gst_v4l2_device_monitor_probe_device env (Some c) None) = Inl e"
    by (cases "snd (gst_v4l2_device_monitor_probe_device env (Some c) None)")
       (simp_all add: probe_aborts_def)
  from e obtain m where m: "stat env (Some c) = Some m"
    by (cases "stat env (Some c)") (simp_all add: probe_device_snd)
  from e m have chr: "S_ISCHR m"
    by (cases "S_ISCHR m") (simp_all add: probe_device_snd)
  from e m chr obtain vc where vc: "v4l2_open env (Some c) = Some vc"
    by (cases "v4l2_open env (Some c)") (simp_all add: probe_device_snd)
  from e m chr vc have "\<not> has_capture vc \<and> \<not> has_output vc"
    by (cases "has_capture vc"; cases "has_output vc")
       (simp_all add: probe_device_snd probe_device_opened_snd probe_device_caps_snd
          gst_v4l2_device_new_def split: option.splits if_splits)
  with m vc show ?thesis by blast
qed

lemma probe_trace_no_stat:
  "stat env (Some c) = None \<Longrightarrow> probe_trace env c = [EvStat (Some c)]"
  by (simp add: probe_trace_def gst_v4l2_device_monitor_probe_device_def)

lemma concat_map_single: "concat (map (\<lambda>c. [f c]) cs) = map f cs"
  by (induction cs) simp_all

lemma map_filter_None: "(\<forall>x\<in>set xs. f x = None) \<Longrightarrow> List.map_filter f xs = []"
  by (induction xs) (simp_all add: List.map_filter_simps)

lemma map_filter_single:
  "List.map_filter (\<lambda>c. if c = k then Some r else None) xs = replicate (count_list xs k) r"
  by (induction xs) (simp_all add: List.map_filter_simps)

lemma count_video3: "count_list (probe_candidates 0) ''/dev/video3'' = 1"
  by code_simp

text \<open>
  The static enumeration calls the probe (and so \<open>stat\<close>) on every candidate, the two
  base names crossed with the indices 0 to 63, in scan order, as long as no probe stops
  at \<open>g_assert_not_reached\<close>. A candidate that does not exist or cannot be opened gives
  no record and no failure. When no probe stops there, the result is the list of the
  records of the candidates whose probe gave one, in reverse scan order. In an empty
  device namespace the result is the empty list.
\<close>

theorem probe_enumerates_candidates:
  "length (probe_candidates 0) = 128
   \<and> set (probe_candidates 0) = {b @ printf_d i | b i. b \<in> set dev_base \<and> i < 64}
   \<and> (\<forall>c. stat env (Some c) = None \<or> v4l2_open env (Some c) = None
         \<longrightarrow> \<not> probe_aborts env c \<and> probe_record env c = None)
   \<and> ((\<forall>c\<in>set (probe_candidates 0). \<not> probe_aborts env c) \<longrightarrow>
        stat_calls (fst (gst_v4l2_device_monitor_probe env)) = map Some (probe_candidates 0)
        \<and> snd (gst_v4l2_device_monitor_probe env)
            = Inr (rev (List.map_filter (probe_record env) (probe_candidates 0)))
        \<and> (\<forall>d. (\<exists>ds. snd (gst_v4l2_device_monitor_probe env) = Inr ds \<and> d \<in> set ds)
              \<longleftrightarrow> (\<exists>c\<in>set (probe_candidates 0).
                     snd (gst_v4l2_device_monitor_probe_device env (Some c) None)
                       = Inr (Some d))))
   \<and> ((\<forall>p. stat env p = None) \<longrightarrow>
        gst_v4l2_device_monitor_probe env
          = (map (\<lambda>c. EvStat (Some c)) (probe_candidates 0), Inr []))"
proof (intro conjI allI impI)
  show "length (probe_candidates 0) = 128"
    by (rule probe_candidates_length)
  show "set (probe_candidates 0) = {b @ printf_d i | b i. b \<in> set dev_base \<and> i < 64}"
    by (rule probe_candidates_set)
next
  fix c
  assume "stat env (Some c) = None \<or> v4l2_open env (Some c) = None"
  from probe_unreachable [OF this]
  show "\<not> probe_aborts env c" and "probe_record env c = None"
    by (simp_all add: probe_aborts_def probe_record_def)
next
  assume ok: "\<forall>c\<in>set (probe_candidates 0). \<not> probe_aborts env c"
  note char = probe_indices_char [OF ok, of "[]" "[]"]
  from char
  show "stat_calls (fst (gst_v4l2_device_monitor_probe env)) = map Some (probe_candidates 0)"
    by (simp add: gst_v4l2_device_monitor_probe_def stat_calls_probe_traces)
  from char
  show res: "snd (gst_v4l2_device_monitor_probe env)
          = Inr (rev (List.map_filter (probe_record env) (probe_candidates 0)))"
    by (simp add: gst_v4l2_device_monitor_probe_def)
  fix d
  show "(\<exists>ds. snd (gst_v4l2_device_monitor_probe env) = Inr ds \<and> d \<in> set ds)
          \<longleftrightarrow> (\<exists>c\<in>set (probe_candidates 0).
                 snd (gst_v4l2_device_monitor_probe_device env (Some c) None) = Inr (Some d))"
    by (simp add: res set_map_filter probe_record_Some_iff)
next
  assume none: "\<forall>p. stat env p = None"
  have ok: "\<forall>c\<in>set (probe_candidates 0). \<not> probe_aborts env c"
  proof
    fix c
    from none have "stat env (Some c) = None" by simp
    with probe_aborts_D [of env c] show "\<not> probe_aborts env c" by auto
  qed
  have rec: "\<forall>c\<in>set (probe_candidates 0). probe_record env c = None"
    using none by (simp add: probe_record_def probe_unreachable)
  have tr: "map (probe_trace env) (probe_candidates 0)
              = map (\<lambda>c. [EvStat (Some c)]) (probe_candidates 0)"
    using none by (simp add: probe_trace_no_stat)
  show "gst_v4l2_device_monitor_probe env
          = (map (\<lambda>c. EvStat (Some c)) (probe_candidates 0), Inr [])"
    by (simp add: gst_v4l2_device_monitor_probe_def probe_indices_char [OF ok]
        map_filter_None [OF rec] tr concat_map_single)
qed

theorem probe_enumerates_candidates_witness:
  "gst_v4l2_device_monitor_probe empty_env
     = (map (\<lambda>c. EvStat (Some c)) (probe_candidates 0), Inr [])
   \<and> stat_calls (fst (gst_v4l2_device_monitor_probe webcam_env))
       = map Some (probe_candidates 0)"
proof -
  have h: "\<forall>p. stat empty_env p = None"
    by (simp add: empty_env_def)
  have a: "gst_v4l2_device_monitor_probe empty_env
     = (map (\<lambda>c. EvStat (Some c)) (probe_candidates 0), Inr [])"
    using h by (rule probe_enumerates_candidates
        [THEN conjunct2, THEN conjunct2, THEN conjunct2, THEN conjunct2, THEN mp])
  have ok: "\<forall>c\<in>set (probe_candidates 0). \<not> probe_aborts webcam_env c"
  proof
    fix c
    show "\<not> probe_aborts webcam_env c"
      using probe_aborts_D [of webcam_env c]
      by (auto simp add: webcam_env_def has_capture_def V4L2_CAP_VIDEO_CAPTURE_def
          split: if_splits)
  qed
  have b: "stat_calls (fst (gst_v4l2_device_monitor_probe webcam_env))
       = map Some (probe_candidates 0)"
    using ok by (rule probe_enumerates_candidates
        [THEN conjunct2, THEN conjunct2, THEN conjunct2, THEN conjunct1, THEN mp,
         THEN conjunct1])
  from a b show ?thesis by (rule conjI)
qed

text \<open>
  C6: the static enumeration is to probe every candidate and to return the records
  found, without failing. On a node that opens, reports neither the capture nor the
  output capability and has non-empty caps, \<open>gst_v4l2_device_monitor_probe_device\<close> calls
  \<open>gst_v4l2_device_new\<close> with the type still invalid, which is the case that function
  asserts not to be reached. With such a node at \<open>/dev/video1\<close> the enumeration stops
  there: three of the 128 candidates have been probed and no list is returned.
\<close>

theorem probe_aborts_on_neither_capability:
  "gst_v4l2_device_monitor_probe neither_env
     = ([EvStat (Some ''/dev/video0''), EvStat (Some ''/dev/v4l2/video0''),
         EvStat (Some ''/dev/video1''), EvObjectNew (Some ''/dev/video1''), EvOpen True,
         EvGetCaps True, EvDeviceNew],
        Inl AssertNotReached)
   \<and> \<not> has_capture \<lparr>card = ''vim2m'', capabilities = 0x04008000\<rparr>
   \<and> \<not> has_output \<lparr>card = ''vim2m'', capabilities = 0x04008000\<rparr>"
  by code_simp

subsection \<open>The display name\<close>

lemma device_from_udev_SomeD:
  assumes "snd (gst_v4l2_device_monitor_device_from_udev env u) = Inr (Some d)"
  shows "\<exists>d0. snd (gst_v4l2_device_monitor_probe_device env (device_file u)
                  (case property u ''ID_V4L_PRODUCT'' of
                     Some x \<Rightarrow> Some x
                   | None \<Rightarrow> (case property u ''ID_MODEL_ENC'' of
                                Some x \<Rightarrow> Some x
                              | None \<Rightarrow> property u ''ID_MODEL''))) = Inr (Some d0)
           \<and> d = d0\<lparr>syspath := Some (sysfs_path u)\<rparr>"
  using assms
  by (auto simp add: gst_v4l2_device_monitor_device_from_udev_def Let_def
      split: option.splits prod.splits sum.splits if_splits)

text \<open>
  C8: the display name of a probed record is the name the caller supplied when there is
  one, and the card name of the hardware otherwise. For a device that udev reports, the
  supplied name is the first present of the properties \<open>ID_V4L_PRODUCT\<close>,
  \<open>ID_MODEL_ENC\<close> and \<open>ID_MODEL\<close>. When \<open>/dev/video3\<close> is the only node, capture-only
  with a non-empty format list and the card name "WebCam X", the static enumeration
  returns exactly one record, a Source with the display name "WebCam X".
\<close>

theorem probe_display_name:
  "(\<forall>d vc. snd (gst_v4l2_device_monitor_probe_device env p n) = Inr (Some d)
        \<longrightarrow> v4l2_open env p = Some vc
        \<longrightarrow> display_name d = (case n of Some x \<Rightarrow> x | None \<Rightarrow> card vc))
   \<and> (\<forall>d vc. snd (gst_v4l2_device_monitor_device_from_udev env u) = Inr (Some d)
        \<longrightarrow> v4l2_open env (device_file u) = Some vc
        \<longrightarrow> display_name d =
              (case property u ''ID_V4L_PRODUCT'' of
                 Some x \<Rightarrow> x
               | None \<Rightarrow> (case property u ''ID_MODEL_ENC'' of
                            Some x \<Rightarrow> x
                          | None \<Rightarrow> (case property u ''ID_MODEL'' of
                                       Some x \<Rightarrow> x
                                     | None \<Rightarrow> card vc))))
   \<and> (stat env (Some ''/dev/video3'') = Some m \<and> S_ISCHR m
        \<and> v4l2_open env (Some ''/dev/video3'') = Some cam
        \<and> has_capture cam \<and> \<not> has_output cam \<and> card cam = ''WebCam X''
        \<and> v4l2_get_caps env (Some ''/dev/video3'') V4L2_BUF_TYPE_VIDEO_CAPTURE = Some cs
        \<and> cs \<noteq> []
        \<and> (\<forall>c. c \<noteq> ''/dev/video3'' \<longrightarrow> stat env (Some c) = None)
      \<longrightarrow> (\<exists>d. snd (gst_v4l2_device_monitor_probe env) = Inr [d]
                \<and> device_path d = ''/dev/video3''
                \<and> classification d = GST_V4L2_DEVICE_TYPE_SOURCE
                \<and> display_name d = ''WebCam X''))"
proof (intro conjI allI impI)
  fix d vc
  assume r: "snd (gst_v4l2_device_monitor_probe_device env p n) = Inr (Some d)"
    and vc: "v4l2_open env p = Some vc"
  from probe_device_SomeD [OF r] vc
  show "display_name d = (case n of Some x \<Rightarrow> x | None \<Rightarrow> card vc)"
    by (auto simp add: probed_record_def)
next
  fix d vc
  assume r: "snd (gst_v4l2_device_monitor_device_from_udev env u) = Inr (Some d)"
    and vc: "v4l2_open env (device_file u) = Some vc"
  from device_from_udev_SomeD [OF r] obtain d0 where
    d0: "snd (gst_v4l2_device_monitor_probe_device env (device_file u)
                  (case property u ''ID_V4L_PRODUCT'' of
                     Some x \<Rightarrow> Some x
                   | None \<Rightarrow> (case property u ''ID_MODEL_ENC'' of
                                Some x \<Rightarrow> Some x
                              | None \<Rightarrow> property u ''ID_MODEL''))) = Inr (Some d0)"
    and d: "d = d0\<lparr>syspath := Some (sysfs_path u)\<rparr>"
    by blast
  from probe_device_SomeD [OF d0] vc d
  show "display_name d =
              (case property u ''ID_V4L_PRODUCT'' of
                 Some x \<Rightarrow> x
               | None \<Rightarrow> (case property u ''ID_MODEL_ENC'' of
                            Some x \<Rightarrow> x
                          | None \<Rightarrow> (case property u ''ID_MODEL'' of
                                       Some x \<Rightarrow> x
                                     | None \<Rightarrow> card vc)))"
    by (auto simp add: probed_record_def split: option.splits)
next
  assume a: "stat env (Some ''/dev/video3'') = Some m \<and> S_ISCHR m
        \<and> v4l2_open env (Some ''/dev/video3'') = Some cam
        \<and> has_capture cam \<and> \<not> has_output cam \<and> card cam = ''WebCam X''
        \<and> v4l2_get_caps env (Some ''/dev/video3'') V4L2_BUF_TYPE_VIDEO_CAPTURE = Some cs
        \<and> cs \<noteq> []
        \<and> (\<forall>c. c \<noteq> ''/dev/video3'' \<longrightarrow> stat env (Some c) = None)"
  let ?d = "probed_record ''/dev/video3'' None cam cs"
  from a have here: "snd (gst_v4l2_device_monitor_probe_device env (Some ''/dev/video3'') None)
                       = Inr (Some ?d)"
    by (intro probe_device_success [of env _ m]) simp_all
  from a have other: "\<And>c. c \<noteq> ''/dev/video3''
       \<Longrightarrow> snd (gst_v4l2_device_monitor_probe_device env (Some c) None) = Inr None"
    by (simp add: probe_unreachable)
  have ok: "\<forall>c\<in>set (probe_candidates 0). \<not> probe_aborts env c"
  proof
    fix c
    show "\<not> probe_aborts env c"
      using here other [of c] by (cases "c = ''/dev/video3''") (simp_all add: probe_aborts_def)
  qed
  have rec: "probe_record env = (\<lambda>c. if c = ''/dev/video3'' then Some ?d else None)"
  proof
    fix c
    show "probe_record env c = (if c = ''/dev/video3'' then Some ?d else None)"
      using here other [of c] by (simp add: probe_record_def)
  qed
  from probe_indices_char [OF ok, of "[]" "[]"]
  have "snd (gst_v4l2_device_monitor_probe env) = Inr [?d]"
    by (simp add: gst_v4l2_device_monitor_probe_def rec map_filter_single count_video3)
  moreover from a have "classification ?d = GST_V4L2_DEVICE_TYPE_SOURCE"
    by (simp add: classification_probed_record)
  moreover from a have "display_name ?d = ''WebCam X''"
    by (simp add: probed_record_def)
  moreover have "device_path ?d = ''/dev/video3''"
    by (simp add: probed_record_def)
  ultimately show "\<exists>d. snd (gst_v4l2_device_monitor_probe env) = Inr [d]
                \<and> device_path d = ''/dev/video3''
                \<and> classification d = GST_V4L2_DEVICE_TYPE_SOURCE
                \<and> display_name d = ''WebCam X''"
    by blast
qed

theorem probe_display_name_witness:
  "\<exists>d. snd (gst_v4l2_device_monitor_probe webcam_env) = Inr [d]
        \<and> device_path d = ''/dev/video3''
        \<and> classification d = GST_V4L2_DEVICE_TYPE_SOURCE
        \<and> display_name d = ''WebCam X''"
proof -
  let ?cam = "\<lparr>card = ''WebCam X'', capabilities = 0x04200001 :: 32 word\<rparr>"
  have "stat webcam_env (Some ''/dev/video3'') = Some 0x21B0 \<and> S_ISCHR 0x21B0
        \<and> v4l2_open webcam_env (Some ''/dev/video3'') = Some ?cam
        \<and> has_capture ?cam \<and> \<not> has_output ?cam \<and> card ?cam = ''WebCam X''
        \<and> v4l2_get_caps webcam_env (Some ''/dev/video3'') V4L2_BUF_TYPE_VIDEO_CAPTURE
            = Some [''video/x-raw'']
        \<and> [''video/x-raw''] \<noteq> []
        \<and> (\<forall>c. c \<noteq> ''/dev/video3'' \<longrightarrow> stat webcam_env (Some c) = None)"
    by (simp add: webcam_env_def S_ISCHR_def has_capture_def has_output_def
        V4L2_CAP_VIDEO_CAPTURE_def V4L2_CAP_VIDEO_OUTPUT_def)
  then show ?thesis
    by (rule probe_display_name [THEN conjunct2, THEN conjunct2, THEN mp])
qed

subsection \<open>Hotplug events\<close>

lemma probe_device_no_add:
  "EvDeviceAdd d \<notin> set (fst (gst_v4l2_device_monitor_probe_device env p n))"
  by (auto simp add: gst_v4l2_device_monitor_probe_device_def probe_device_opened_def
      probe_device_caps_def gst_caps_is_empty_def Let_def
      split: option.splits if_splits sum.splits prod.splits)

lemma device_from_udev_no_add:
  "EvDeviceAdd d \<notin> set (fst (gst_v4l2_device_monitor_device_from_udev env u))"
proof -
  let ?n = "if (if property u ''ID_V4L_PRODUCT'' = None then property u ''ID_MODEL_ENC''
                else property u ''ID_V4L_PRODUCT'') = None
            then property u ''ID_MODEL''
            else (if property u ''ID_V4L_PRODUCT'' = None then property u ''ID_MODEL_ENC''
                  else property u ''ID_V4L_PRODUCT'')"
  obtain t r where p: "gst_v4l2_device_monitor_probe_device env (device_file u) ?n = (t, r)"
    by (cases "gst_v4l2_device_monitor_probe_device env (device_file u) ?n")
  then have "fst (gst_v4l2_device_monitor_device_from_udev env u) = t"
    by (simp add: gst_v4l2_device_monitor_device_from_udev_def Let_def
        split: sum.splits option.splits)
  moreover from p probe_device_no_add [of d env "device_file u" ?n]
  have "EvDeviceAdd d \<notin> set t"
    by simp
  ultimately show ?thesis by simp
qed

lemma uevent_cb_add_event:
  assumes "EvDeviceAdd d \<in> set (fst (uevent_cb env action device self))"
  shows "property_as_int device ''ID_V4L_VERSION'' = 2
           \<and> snd (gst_v4l2_device_monitor_device_from_udev env device) = Inr (Some d)"
proof -
  from assms have v: "property_as_int device ''ID_V4L_VERSION'' = 2"
    by (cases "property_as_int device ''ID_V4L_VERSION'' = 2") (simp_all add: uevent_cb_def)
  obtain t r where u: "gst_v4l2_device_monitor_device_from_udev env device = (t, r)"
    by (cases "gst_v4l2_device_monitor_device_from_udev env device")
  with device_from_udev_no_add [of d env device] have t: "EvDeviceAdd d \<notin> set t"
    by simp
  from assms v have add: "action = ''add''"
    by (cases "action = ''add''"; cases "action = ''remove''")
       (auto simp add: uevent_cb_def split: sum.splits option.splits)
  from assms v add u t have "r = Inr (Some d)"
    by (cases r; cases "projr r") (auto simp add: uevent_cb_def)
  with v u show ?thesis by simp
qed

lemma monitor_thread_devices_skip:
  "property_as_int u ''ID_V4L_VERSION'' \<noteq> 2
     \<Longrightarrow> monitor_thread_devices env (u # devs) monitor = monitor_thread_devices env devs monitor"
  by simp

lemma monitor_thread_devices_filter:
  "monitor_thread_devices env devs monitor =
     monitor_thread_devices env
       (filter (\<lambda>u. property_as_int u ''ID_V4L_VERSION'' = 2) devs) monitor"
proof (induction devs arbitrary: monitor)
  case Nil
  show ?case by simp
next
  case (Cons u devs)
  show ?case
  proof (cases "property_as_int u ''ID_V4L_VERSION'' = 2")
    case True
    then show ?thesis
      using Cons.IH
      by (cases "gst_v4l2_device_monitor_device_from_udev env u")
         (simp split: sum.splits option.splits)
  next
    case False
    then show ?thesis
      using Cons.IH [of monitor] by simp
  qed
qed

lemma monitor_thread_devices_add_event:
  assumes "EvDeviceAdd d \<in> set (fst (monitor_thread_devices env devs monitor))"
  shows "\<exists>u\<in>set devs. property_as_int u ''ID_V4L_VERSION'' = 2
           \<and> snd (gst_v4l2_device_monitor_device_from_udev env u) = Inr (Some d)"
  using assms
proof (induction devs arbitrary: monitor)
  case Nil
  then show ?case by simp
next
  case (Cons u devs)
  show ?case
  proof (cases "property_as_int u ''ID_V4L_VERSION'' = 2")
    case False
    with Cons.prems Cons.IH [of monitor] show ?thesis
      by simp
  next
    case True
    obtain t r where u: "gst_v4l2_device_monitor_device_from_udev env u = (t, r)"
      by (cases "gst_v4l2_device_monitor_device_from_udev env u")
    with device_from_udev_no_add [of d env u] have t: "EvDeviceAdd d \<notin> set t"
      by simp
    show ?thesis
    proof (cases r)
      case (Inl e)
      with Cons.prems True u t show ?thesis by simp
    next
      case (Inr r')
      show ?thesis
      proof (cases r')
        case None
        with Cons.prems True u t Inr
        have "EvDeviceAdd d \<in> set (fst (monitor_thread_devices env devs monitor))"
          by (cases "monitor_thread_devices env devs monitor") simp
        from Cons.IH [OF this] show ?thesis by simp
      next
        case (Some gstdev)
        let ?m = "gst_device_monitor_device_add monitor gstdev"
        from Cons.prems True u t Inr Some
        have "d = gstdev \<or> EvDeviceAdd d \<in> set (fst (monitor_thread_devices env devs ?m))"
          by (cases "monitor_thread_devices env devs ?m") auto
        then show ?thesis
        proof
          assume "d = gstdev"
          with True u Inr Some show ?thesis by simp
        next
          assume "EvDeviceAdd d \<in> set (fst (monitor_thread_devices env devs ?m))"
          from Cons.IH [OF this] show ?thesis by simp
        qed
      qed
    qed
  qed
qed

text \<open>
  C5: a device whose \<open>ID_V4L_VERSION\<close> property is not 2 is ignored by the event callback
  (for an "add" as for any other action: nothing is probed, nothing is published, no
  error), and by the enumeration of the monitor thread, which behaves as if the device
  were not in the list. Every add notification, of the callback and of the enumeration,
  is for the record of a device of version 2.
\<close>

theorem version_filter:
  "(property_as_int device ''ID_V4L_VERSION'' \<noteq> 2
      \<longrightarrow> uevent_cb env action device self = ([], Inr self))
   \<and> (\<forall>d. EvDeviceAdd d \<in> set (fst (uevent_cb env action device self))
        \<longrightarrow> property_as_int device ''ID_V4L_VERSION'' = 2
          \<and> snd (gst_v4l2_device_monitor_device_from_udev env device) = Inr (Some d))
   \<and> monitor_thread_devices env udev_devices monitor =
       monitor_thread_devices env
         (filter (\<lambda>u. property_as_int u ''ID_V4L_VERSION'' = 2) udev_devices) monitor
   \<and> monitor_thread env udev_devices monitor =
       monitor_thread env
         (filter (\<lambda>u. property_as_int u ''ID_V4L_VERSION'' = 2) udev_devices) monitor
   \<and> (\<forall>d. EvDeviceAdd d \<in> set (fst (monitor_thread_devices env udev_devices monitor))
        \<longrightarrow> (\<exists>u\<in>set udev_devices. property_as_int u ''ID_V4L_VERSION'' = 2
               \<and> snd (gst_v4l2_device_monitor_device_from_udev env u) = Inr (Some d)))"
proof (intro conjI allI impI)
  assume "property_as_int device ''ID_V4L_VERSION'' \<noteq> 2"
  then show "uevent_cb env action device self = ([], Inr self)"
    by (simp add: uevent_cb_def)
next
  fix d
  assume a: "EvDeviceAdd d \<in> set (fst (uevent_cb env action device self))"
  from uevent_cb_add_event [OF a]
  show "property_as_int device ''ID_V4L_VERSION'' = 2"
    and "snd (gst_v4l2_device_monitor_device_from_udev env device) = Inr (Some d)"
    by simp_all
next
  show f: "monitor_thread_devices env udev_devices monitor =
       monitor_thread_devices env
         (filter (\<lambda>u. property_as_int u ''ID_V4L_VERSION'' = 2) udev_devices) monitor"
    by (rule monitor_thread_devices_filter)
  show "monitor_thread env udev_devices monitor =
       monitor_thread env
         (filter (\<lambda>u. property_as_int u ''ID_V4L_VERSION'' = 2) udev_devices) monitor"
    unfolding monitor_thread_def f [symmetric] by (rule refl)
next
  fix d
  assume "EvDeviceAdd d \<in> set (fst (monitor_thread_devices env udev_devices monitor))"
  then show "\<exists>u\<in>set udev_devices. property_as_int u ''ID_V4L_VERSION'' = 2
               \<and> snd (gst_v4l2_device_monitor_device_from_udev env u) = Inr (Some d)"
    by (rule monitor_thread_devices_add_event)
qed

theorem version_filter_witness:
  "property_as_int webcam_udev_v1 ''ID_V4L_VERSION'' = 1
   \<and> uevent_cb webcam_env ''add'' webcam_udev_v1 gst_v4l2_device_monitor_init
       = ([], Inr gst_v4l2_device_monitor_init)"
proof -
  have v: "property_as_int webcam_udev_v1 ''ID_V4L_VERSION'' = 1"
    by (simp add: webcam_udev_v1_def webcam_udev_def)
  then have h: "property_as_int webcam_udev_v1 ''ID_V4L_VERSION'' \<noteq> 2"
    by simp
  have "uevent_cb webcam_env ''add'' webcam_udev_v1 gst_v4l2_device_monitor_init
       = ([], Inr gst_v4l2_device_monitor_init)"
    using h by (rule version_filter [THEN conjunct1, THEN mp])
  with v show ?thesis by (rule conjI)
qed

lemma find_syspath_first:
  assumes "\<forall>x\<in>set xs. \<exists>s. syspath x = Some s \<and> s \<noteq> sp"
  shows "find_syspath (xs @ ys) sp = find_syspath ys sp"
  using assms by (induction xs) auto

lemma find_syspath_none:
  assumes "\<forall>x\<in>set xs. \<exists>s. syspath x = Some s \<and> s \<noteq> sp"
  shows "find_syspath xs sp = Inr None"
  using find_syspath_first [OF assms, of "[]"] by simp

lemma remove1_first:
  assumes "\<forall>x\<in>set xs. \<exists>s. syspath x = Some s \<and> s \<noteq> sp" and "syspath d = Some sp"
  shows "remove1 d (xs @ d # ys) = xs @ ys"
proof -
  from assms have "d \<notin> set xs" by auto
  then show ?thesis by (simp add: remove1_append)
qed

lemma uevent_cb_add_published:
  assumes "snd (uevent_cb env ''add'' device self) = Inr self'"
    and "devices self' \<noteq> devices self"
  shows "\<exists>d. self' = self\<lparr>devices := d # devices self\<rparr>
           \<and> syspath d = Some (sysfs_path device)
           \<and> property_as_int device ''ID_V4L_VERSION'' = 2"
proof -
  from assms have v: "property_as_int device ''ID_V4L_VERSION'' = 2"
    by (cases "property_as_int device ''ID_V4L_VERSION'' = 2") (auto simp add: uevent_cb_def)
  obtain t r where u: "gst_v4l2_device_monitor_device_from_udev env device = (t, r)"
    by (cases "gst_v4l2_device_monitor_device_from_udev env device")
  from assms v u obtain d where r: "r = Inr (Some d)"
    by (cases r; cases "projr r") (auto simp add: uevent_cb_def)
  from u r have "snd (gst_v4l2_device_monitor_device_from_udev env device) = Inr (Some d)"
    by simp
  from device_from_udev_SomeD [OF this] have "syspath d = Some (sysfs_path device)"
    by auto
  moreover from assms(1) v u r have "self' = self\<lparr>devices := d # devices self\<rparr>"
    by (simp add: uevent_cb_def gst_device_monitor_device_add_def)
  ultimately show ?thesis using v by blast
qed

text \<open>
  C1, as the code has it. A "remove" event is handled only when its \<open>ID_V4L_VERSION\<close>
  property is 2, like every other event. Then, when the records before the first one
  with the event's sysfs path all carry a different sysfs path, that first record is
  referenced under the lock, the lock is released, and only then the remove notification
  is issued; the registry loses exactly that record. When every record carries a
  different sysfs path the registry is unchanged. An "add" event that published a record
  followed by a "remove" event with the same sysfs path gives back the registry as it
  was before the add.
\<close>

theorem remove_event_first_match:
  "(property_as_int device ''ID_V4L_VERSION'' \<noteq> 2
      \<longrightarrow> uevent_cb env ''remove'' device self = ([], Inr self))
   \<and> (property_as_int device ''ID_V4L_VERSION'' = 2 \<longrightarrow>
        (devices self = xs @ d # ys
           \<and> (\<forall>x\<in>set xs. \<exists>s. syspath x = Some s \<and> s \<noteq> sysfs_path device)
           \<and> syspath d = Some (sysfs_path device)
          \<longrightarrow> uevent_cb env ''remove'' device self
                = ([EvLock, EvRef d, EvUnlock, EvDeviceRemove d, EvUnref d],
                   Inr (self\<lparr>devices := xs @ ys\<rparr>))
              \<and> notifies_unlocked False (fst (uevent_cb env ''remove'' device self)))
        \<and> ((\<forall>x\<in>set (devices self). \<exists>s. syspath x = Some s \<and> s \<noteq> sysfs_path device)
          \<longrightarrow> uevent_cb env ''remove'' device self = ([EvLock, EvUnlock], Inr self))
        \<and> (\<forall>added self'. snd (uevent_cb env ''add'' added self) = Inr self'
              \<and> devices self' \<noteq> devices self
              \<and> sysfs_path added = sysfs_path device
          \<longrightarrow> snd (uevent_cb env ''remove'' device self') = Inr self))"
proof (intro conjI allI impI)
  assume "property_as_int device ''ID_V4L_VERSION'' \<noteq> 2"
  then show "uevent_cb env ''remove'' device self = ([], Inr self)"
    by (simp add: uevent_cb_def)
next
  assume v: "property_as_int device ''ID_V4L_VERSION'' = 2"
    and a: "devices self = xs @ d # ys
      \<and> (\<forall>x\<in>set xs. \<exists>s. syspath x = Some s \<and> s \<noteq> sysfs_path device)
      \<and> syspath d = Some (sysfs_path device)"
  from a have f: "find_syspath (devices self) (sysfs_path device) = Inr (Some d)"
    by (simp add: find_syspath_first)
  from a have r: "remove1 d (devices self) = xs @ ys"
    using remove1_first [of xs "sysfs_path device" d ys] by simp
  from v f r
  show u: "uevent_cb env ''remove'' device self
           = ([EvLock, EvRef d, EvUnlock, EvDeviceRemove d, EvUnref d],
              Inr (self\<lparr>devices := xs @ ys\<rparr>))"
    by (simp add: uevent_cb_def gst_device_monitor_device_remove_def)
  show "notifies_unlocked False (fst (uevent_cb env ''remove'' device self))"
    by (simp add: u)
next
  assume v: "property_as_int device ''ID_V4L_VERSION'' = 2"
    and "\<forall>x\<in>set (devices self). \<exists>s. syspath x = Some s \<and> s \<noteq> sysfs_path device"
  then have "find_syspath (devices self) (sysfs_path device) = Inr None"
    by (simp add: find_syspath_none)
  with v show "uevent_cb env ''remove'' device self = ([EvLock, EvUnlock], Inr self)"
    by (simp add: uevent_cb_def)
next
  fix added self'
  assume v: "property_as_int device ''ID_V4L_VERSION'' = 2"
    and a: "snd (uevent_cb env ''add'' added self) = Inr self'
         \<and> devices self' \<noteq> devices self
         \<and> sysfs_path added = sysfs_path device"
  from a obtain d where self': "self' = self\<lparr>devices := d # devices self\<rparr>"
    and d: "syspath d = Some (sysfs_path device)"
    using uevent_cb_add_published [of env added self self'] by auto
  from self' d have "find_syspath (devices self') (sysfs_path device) = Inr (Some d)"
    by simp
  with v self' show "snd (uevent_cb env ''remove'' device self') = Inr self"
    by (simp add: uevent_cb_def gst_device_monitor_device_remove_def)
qed

theorem remove_event_first_match_witness:
  "uevent_cb webcam_env ''remove'' webcam_udev running_monitor
     = ([EvLock, EvRef usb_record, EvUnlock, EvDeviceRemove usb_record, EvUnref usb_record],
        Inr (running_monitor\<lparr>devices := []\<rparr>))"
proof -
  have v: "property_as_int webcam_udev ''ID_V4L_VERSION'' = 2"
    by (simp add: webcam_udev_def)
  have h: "devices running_monitor = [] @ usb_record # []
      \<and> (\<forall>x\<in>set []. \<exists>s. syspath x = Some s \<and> s \<noteq> sysfs_path webcam_udev)
      \<and> syspath usb_record = Some (sysfs_path webcam_udev)"
    by (simp add: running_monitor_def usb_record_def webcam_udev_def)
  from remove_event_first_match
    [THEN conjunct2, THEN mp, OF v, THEN conjunct1, THEN mp, OF h, THEN conjunct1]
  show ?thesis by simp
qed

text \<open>
  The claim C1 without the version guard fails: after an "add" has published the webcam,
  a "remove" event with the same sysfs path whose version property is 1 leaves the
  record in the registry.
\<close>

theorem remove_event_version_counterexample:
  "snd (uevent_cb webcam_env ''add'' webcam_udev gst_v4l2_device_monitor_init)
     = Inr (gst_v4l2_device_monitor_init\<lparr>devices := [usb_record]\<rparr>)
   \<and> syspath usb_record = Some (sysfs_path webcam_udev_v1)
   \<and> uevent_cb webcam_env ''remove'' webcam_udev_v1
       (gst_v4l2_device_monitor_init\<lparr>devices := [usb_record]\<rparr>)
     = ([], Inr (gst_v4l2_device_monitor_init\<lparr>devices := [usb_record]\<rparr>))"
  by code_simp

subsection \<open>Records without a sysfs path\<close>

lemma device_new_error:
  "gst_v4l2_device_new p n c ty = Inl e \<Longrightarrow> e = AssertNotReached"
  by (simp add: gst_v4l2_device_new_def
      split: option.splits GstV4l2DeviceType.splits)

lemma probe_device_error:
  assumes "snd (gst_v4l2_device_monitor_probe_device env p n) = Inl e"
  shows "e = AssertNotReached"
proof -
  have "\<exists>p' n' c ty. gst_v4l2_device_new p' n' c ty = Inl e"
    using assms
    by (auto simp add: probe_device_snd probe_device_opened_snd probe_device_caps_snd
        split: option.splits if_splits)
  then show ?thesis
    by (auto dest: device_new_error)
qed

lemma device_from_udev_error:
  assumes "snd (gst_v4l2_device_monitor_device_from_udev env u) = Inl e"
  shows "e = AssertNotReached"
proof -
  let ?n = "if (if property u ''ID_V4L_PRODUCT'' = None then property u ''ID_MODEL_ENC''
                else property u ''ID_V4L_PRODUCT'') = None
            then property u ''ID_MODEL''
            else (if property u ''ID_V4L_PRODUCT'' = None then property u ''ID_MODEL_ENC''
                  else property u ''ID_V4L_PRODUCT'')"
  obtain t r where p: "gst_v4l2_device_monitor_probe_device env (device_file u) ?n = (t, r)"
    by (cases "gst_v4l2_device_monitor_probe_device env (device_file u) ?n")
  from assms p have "r = Inl e"
    by (simp add: gst_v4l2_device_monitor_device_from_udev_def Let_def
        split: sum.splits option.splits)
  with p have "snd (gst_v4l2_device_monitor_probe_device env (device_file u) ?n) = Inl e"
    by simp
  then have "\<exists>p n. snd (gst_v4l2_device_monitor_probe_device env p n) = Inl e"
    by blast
  then show ?thesis
    by (auto dest: probe_device_error)
qed

lemma find_syspath_defined:
  "\<forall>d\<in>set ds. syspath d \<noteq> None \<Longrightarrow> find_syspath ds sp \<noteq> Inl e"
  by (induction ds) (auto split: option.splits)

lemma uevent_cb_defined:
  assumes "\<forall>d\<in>set (devices self). syspath d \<noteq> None"
  shows "snd (uevent_cb env action device self) \<noteq> Inl NullDereference"
proof (cases "property_as_int device ''ID_V4L_VERSION'' = 2")
  case False
  then show ?thesis by (simp add: uevent_cb_def)
next
  case True
  show ?thesis
  proof (cases "action = ''add''")
    case add: True
    obtain t r where u: "gst_v4l2_device_monitor_device_from_udev env device = (t, r)"
      by (cases "gst_v4l2_device_monitor_device_from_udev env device")
    show ?thesis
    proof (cases r)
      case (Inl e)
      with u device_from_udev_error [of env device e] have "e = AssertNotReached"
        by simp
      with True add u Inl show ?thesis by (simp add: uevent_cb_def)
    next
      case (Inr r')
      with True add u show ?thesis
        by (cases r') (simp_all add: uevent_cb_def)
    qed
  next
    case False
    note not_add = False
    show ?thesis
    proof (cases "action = ''remove''")
      case False
      with True not_add show ?thesis by (simp add: uevent_cb_def)
    next
      case remove: True
      show ?thesis
      proof (cases "find_syspath (devices self) (sysfs_path device)")
        case (Inl e)
        with find_syspath_defined [OF assms] show ?thesis by blast
      next
        case (Inr r')
        with True remove show ?thesis
          by (cases r') (simp_all add: uevent_cb_def)
      qed
    qed
  qed
qed

lemma probe_bases_syspath:
  assumes "probe_bases env n bases (tr, devs) = (tr', Inr ds)"
    and "\<forall>d\<in>set devs. syspath d = None"
  shows "\<forall>d\<in>set ds. syspath d = None"
  using assms
proof (induction bases arbitrary: tr devs)
  case Nil
  then show ?case by simp
next
  case (Cons b bases)
  obtain t r where p: "gst_v4l2_device_monitor_probe_device env (Some (b @ printf_d n)) None
                         = (t, r)"
    by (cases "gst_v4l2_device_monitor_probe_device env (Some (b @ printf_d n)) None")
  from Cons.prems(1) p obtain r' where r: "r = Inr r'"
    by (cases r) simp_all
  show ?case
  proof (cases r')
    case None
    with Cons.prems p r Cons.IH [of "tr @ t" devs] show ?thesis
      by simp
  next
    case (Some device)
    with p r have "snd (gst_v4l2_device_monitor_probe_device env (Some (b @ printf_d n)) None)
                     = Inr (Some device)"
      by simp
    from probe_device_SomeD [OF this] have "syspath device = None"
      by (auto simp add: probed_record_def)
    with Cons.prems p r Some Cons.IH [of "tr @ t @ [EvRefSink device]" "device # devs"]
    show ?thesis
      by simp
  qed
qed

lemma probe_indices_syspath:
  assumes "probe_indices env n (tr, devs) = (tr', Inr ds)"
    and "\<forall>d\<in>set devs. syspath d = None"
  shows "\<forall>d\<in>set ds. syspath d = None"
  using assms
proof (induction "64 - n" arbitrary: n tr devs)
  case 0
  then have "\<not> n < 64" by simp
  with "0.prems" show ?case
    by (simp add: probe_indices.simps [of env n])
next
  case (Suc k)
  then have lt: "n < 64" by simp
  obtain t r where b: "probe_bases env n dev_base (tr, devs) = (t, r)"
    by (cases "probe_bases env n dev_base (tr, devs)")
  from Suc.prems(1) lt b obtain devs' where r: "r = Inr devs'"
    by (cases r) (simp_all add: probe_indices.simps [of env n])
  from b r Suc.prems(2) have d': "\<forall>d\<in>set devs'. syspath d = None"
    using probe_bases_syspath by blast
  from Suc.prems(1) lt b r have "probe_indices env (Suc n) (t, devs') = (tr', Inr ds)"
    by (simp add: probe_indices.simps [of env n])
  moreover from Suc.hyps(2) have "k = 64 - Suc n" by simp
  ultimately show ?case
    using Suc.hyps(1) d' by blast
qed

lemma find_syspath_null_iff:
  "find_syspath ds sp = Inl NullDereference
     \<longleftrightarrow> (\<exists>xs d ys. ds = xs @ d # ys
            \<and> (\<forall>x\<in>set xs. \<exists>s. syspath x = Some s \<and> s \<noteq> sp)
            \<and> syspath d = None)"
proof
  assume "find_syspath ds sp = Inl NullDereference"
  then show "\<exists>xs d ys. ds = xs @ d # ys
            \<and> (\<forall>x\<in>set xs. \<exists>s. syspath x = Some s \<and> s \<noteq> sp)
            \<and> syspath d = None"
  proof (induction ds)
    case Nil
    then show ?case by simp
  next
    case (Cons a ds)
    show ?case
    proof (cases "syspath a")
      case None
      then have "a # ds = [] @ a # ds
            \<and> (\<forall>x\<in>set []. \<exists>s. syspath x = Some s \<and> s \<noteq> sp)
            \<and> syspath a = None"
        by simp
      then show ?thesis by blast
    next
      case (Some s)
      with Cons.prems have ne: "s \<noteq> sp" and rest: "find_syspath ds sp = Inl NullDereference"
        by (auto split: if_splits)
      from Cons.IH [OF rest] obtain xs d ys where
        ds: "ds = xs @ d # ys"
        and xs: "\<forall>x\<in>set xs. \<exists>s. syspath x = Some s \<and> s \<noteq> sp"
        and d: "syspath d = None"
        by blast
      from ds xs d Some ne have "a # ds = (a # xs) @ d # ys
            \<and> (\<forall>x\<in>set (a # xs). \<exists>s. syspath x = Some s \<and> s \<noteq> sp)
            \<and> syspath d = None"
        by simp
      then show ?thesis by blast
    qed
  qed
next
  assume "\<exists>xs d ys. ds = xs @ d # ys
            \<and> (\<forall>x\<in>set xs. \<exists>s. syspath x = Some s \<and> s \<noteq> sp)
            \<and> syspath d = None"
  then obtain xs d ys where ds: "ds = xs @ d # ys"
    and xs: "\<forall>x\<in>set xs. \<exists>s. syspath x = Some s \<and> s \<noteq> sp"
    and d: "syspath d = None"
    by blast
  from find_syspath_first [OF xs, of "d # ys"] ds d
  show "find_syspath ds sp = Inl NullDereference"
    by simp
qed

lemma uevent_cb_remove_null_iff:
  assumes "property_as_int device ''ID_V4L_VERSION'' = 2"
  shows "snd (uevent_cb env ''remove'' device self) = Inl NullDereference
           \<longleftrightarrow> find_syspath (devices self) (sysfs_path device) = Inl NullDereference"
proof (cases "find_syspath (devices self) (sysfs_path device)")
  case (Inl e)
  with assms show ?thesis
    by (simp add: uevent_cb_def)
next
  case (Inr r)
  with assms show ?thesis
    by (cases r) (simp_all add: uevent_cb_def)
qed

text \<open>
  C10, as the code has it. A "remove" event of version 2 is compared by \<open>strcmp\<close>, with
  no test for NULL, with the \<open>syspath\<close> of the registry records in scan order, up to
  and including the first record that matches; the records after the first match are
  not compared. The handling dereferences NULL exactly when the first record that
  either matches or carries no sysfs path carries none; it does not when every record
  carries one. A record that comes from a udev device carries the sysfs path of that
  device; the records of the static enumeration carry none.
\<close>

theorem remove_scan_compares_until_match:
  "(property_as_int device ''ID_V4L_VERSION'' \<noteq> 2
      \<longrightarrow> snd (uevent_cb env ''remove'' device self) = Inr self)
   \<and> (property_as_int device ''ID_V4L_VERSION'' = 2
      \<longrightarrow> (snd (uevent_cb env ''remove'' device self) = Inl NullDereference
            \<longleftrightarrow> (\<exists>xs d ys. devices self = xs @ d # ys
                   \<and> (\<forall>x\<in>set xs. \<exists>s. syspath x = Some s \<and> s \<noteq> sysfs_path device)
                   \<and> syspath d = None)))
   \<and> (property_as_int device ''ID_V4L_VERSION'' = 2
        \<and> devices self = xs @ d # ys
        \<and> (\<forall>x\<in>set xs. \<exists>s. syspath x = Some s \<and> s \<noteq> sysfs_path device)
        \<and> syspath d = Some (sysfs_path device)
      \<longrightarrow> snd (uevent_cb env ''remove'' device self)
            = Inr (gst_device_monitor_device_remove self d))
   \<and> ((\<forall>d\<in>set (devices self). syspath d \<noteq> None)
      \<longrightarrow> snd (uevent_cb env action device self) \<noteq> Inl NullDereference)
   \<and> (\<forall>d. snd (gst_v4l2_device_monitor_device_from_udev env u) = Inr (Some d)
         \<longrightarrow> syspath d = Some (sysfs_path u))
   \<and> (\<forall>ds d. snd (gst_v4l2_device_monitor_probe env) = Inr ds \<longrightarrow> d \<in> set ds
         \<longrightarrow> syspath d = None)"
proof (intro conjI allI impI)
  assume "property_as_int device ''ID_V4L_VERSION'' \<noteq> 2"
  then show "snd (uevent_cb env ''remove'' device self) = Inr self"
    by (simp add: uevent_cb_def)
next
  assume v: "property_as_int device ''ID_V4L_VERSION'' = 2"
  show "snd (uevent_cb env ''remove'' device self) = Inl NullDereference
            \<longleftrightarrow> (\<exists>xs d ys. devices self = xs @ d # ys
                   \<and> (\<forall>x\<in>set xs. \<exists>s. syspath x = Some s \<and> s \<noteq> sysfs_path device)
                   \<and> syspath d = None)"
    unfolding uevent_cb_remove_null_iff [OF v] by (rule find_syspath_null_iff)
next
  assume a: "property_as_int device ''ID_V4L_VERSION'' = 2
        \<and> devices self = xs @ d # ys
        \<and> (\<forall>x\<in>set xs. \<exists>s. syspath x = Some s \<and> s \<noteq> sysfs_path device)
        \<and> syspath d = Some (sysfs_path device)"
  then have "find_syspath (devices self) (sysfs_path device) = Inr (Some d)"
    by (simp add: find_syspath_first)
  with a show "snd (uevent_cb env ''remove'' device self)
            = Inr (gst_device_monitor_device_remove self d)"
    by (simp add: uevent_cb_def)
next
  assume "\<forall>d\<in>set (devices self). syspath d \<noteq> None"
  then show "snd (uevent_cb env action device self) \<noteq> Inl NullDereference"
    by (rule uevent_cb_defined)
next
  fix d
  assume "snd (gst_v4l2_device_monitor_device_from_udev env u) = Inr (Some d)"
  from device_from_udev_SomeD [OF this] show "syspath d = Some (sysfs_path u)"
    by auto
next
  fix ds d
  assume r: "snd (gst_v4l2_device_monitor_probe env) = Inr ds" and d: "d \<in> set ds"
  obtain tr where "probe_indices env 0 ([], []) = (tr, Inr ds)"
    using r by (cases "probe_indices env 0 ([], [])")
      (simp add: gst_v4l2_device_monitor_probe_def)
  from probe_indices_syspath [OF this] d show "syspath d = None"
    by simp
qed

theorem remove_scan_compares_until_match_witness:
  "syspath usb_record = Some (sysfs_path webcam_udev)
   \<and> snd (uevent_cb webcam_env ''remove'' webcam_udev
            (gst_v4l2_device_monitor_init\<lparr>devices := [usb_record]\<rparr>))
       \<noteq> Inl NullDereference"
proof -
  have r: "snd (gst_v4l2_device_monitor_device_from_udev webcam_env webcam_udev)
             = Inr (Some usb_record)"
    by code_simp
  from remove_scan_compares_until_match
    [THEN conjunct2, THEN conjunct2, THEN conjunct2, THEN conjunct2, THEN conjunct1,
     THEN spec, THEN mp, OF r]
  have s: "syspath usb_record = Some (sysfs_path webcam_udev)" .
  have h: "\<forall>d\<in>set (devices (gst_v4l2_device_monitor_init\<lparr>devices := [usb_record]\<rparr>)).
             syspath d \<noteq> None"
    using s by simp
  from remove_scan_compares_until_match
    [THEN conjunct2, THEN conjunct2, THEN conjunct2, THEN conjunct1, THEN mp, OF h]
  have c: "snd (uevent_cb webcam_env ''remove'' webcam_udev
            (gst_v4l2_device_monitor_init\<lparr>devices := [usb_record]\<rparr>))
       \<noteq> Inl NullDereference" .
  from s c show ?thesis by (rule conjI)
qed

text \<open>
  The claim C10 says that every record of the registry is compared and that the
  comparison is well-defined only if every record carries a sysfs path. With the record
  of the webcam from udev followed by its record from the static enumeration, which
  carries none, a "remove" event for the webcam matches the first record; the second is
  not compared and the event is handled without fault.
\<close>

theorem remove_scan_stops_at_match_counterexample:
  "syspath webcam_record = None
   \<and> uevent_cb webcam_env ''remove'' webcam_udev
       (gst_v4l2_device_monitor_init\<lparr>devices := [usb_record, webcam_record]\<rparr>)
     = ([EvLock, EvRef usb_record, EvUnlock, EvDeviceRemove usb_record, EvUnref usb_record],
        Inr (gst_v4l2_device_monitor_init\<lparr>devices := [webcam_record]\<rparr>))"
  by code_simp

subsection \<open>Stop\<close>

text \<open>
  The stop of the class, \<open>gst_v4l2_device_monitor_stop\<close>, on a monitor whose context and
  loop are set clears the context, loop and thread handles and the started flag and
  leaves the list of devices to the parent class. On a monitor without context or loop
  it only clears these two handles.
\<close>

lemma stop_clears_handles:
  "(context' self \<noteq> None \<and> loop self \<noteq> None
      \<longrightarrow> gst_v4l2_device_monitor_stop self
            = ([EvLock, EvUnlock, EvIdleQuit, EvContextUnref, EvThreadJoin, EvThreadUnref],
               gst_v4l2_device_monitor_init\<lparr>devices := devices self\<rparr>))
   \<and> (context' self = None \<or> loop self = None
      \<longrightarrow> gst_v4l2_device_monitor_stop self
            = ([EvLock, EvUnlock], self\<lparr>context' := None, loop := None\<rparr>))
   \<and> start_assertion (snd (gst_v4l2_device_monitor_stop self))
   \<and> devices (snd (gst_v4l2_device_monitor_stop self)) = devices self"
  by (auto simp add: gst_v4l2_device_monitor_stop_def gst_v4l2_device_monitor_init_def
      start_assertion_def Let_def)

text \<open>
  C7: after the stop of a started monitor (its context and loop are set) the monitor is
  in the state of a newly constructed, never started one: the registry holds no record
  from before the stop, the context, loop and thread handles are cleared and the started
  flag is false. A start that follows therefore begins from that state, and its entry
  assertion holds. The stop of a never started monitor leaves it as it is. On a monitor
  without context or loop the stop of the class returns early and keeps the thread
  handle and the started flag as they are, which in a monitor that was never started,
  or was stopped, are already cleared. In every case the registry is empty and the
  context and the loop are cleared after the stop.
\<close>

theorem stop_returns_to_fresh:
  "(context' self \<noteq> None \<and> loop self \<noteq> None
      \<longrightarrow> snd (gst_device_monitor_stop self) = gst_v4l2_device_monitor_init)
   \<and> snd (gst_device_monitor_stop gst_v4l2_device_monitor_init) = gst_v4l2_device_monitor_init
   \<and> snd (gst_device_monitor_stop self)
       = (if context' self \<noteq> None \<and> loop self \<noteq> None then gst_v4l2_device_monitor_init
          else gst_v4l2_device_monitor_init\<lparr>thread := thread self, started := started self\<rparr>)
   \<and> devices (snd (gst_device_monitor_stop self)) = []
   \<and> context' (snd (gst_device_monitor_stop self)) = None
   \<and> loop (snd (gst_device_monitor_stop self)) = None
   \<and> start_assertion (snd (gst_device_monitor_stop self))"
  by (auto simp add: gst_device_monitor_stop_def gst_v4l2_device_monitor_stop_def
      gst_v4l2_device_monitor_init_def start_assertion_def Let_def)

theorem stop_returns_to_fresh_witness:
  "devices running_monitor = [usb_record]
   \<and> snd (gst_device_monitor_stop running_monitor) = gst_v4l2_device_monitor_init"
proof -
  have d: "devices running_monitor = [usb_record]"
    by (simp add: running_monitor_def)
  have h: "context' running_monitor \<noteq> None \<and> loop running_monitor \<noteq> None"
    by (simp add: running_monitor_def)
  then have "snd (gst_device_monitor_stop running_monitor) = gst_v4l2_device_monitor_init"
    by (rule stop_returns_to_fresh [THEN conjunct1, THEN mp])
  with d show ?thesis by (rule conjI)
qed

end
